theory Spec2Isabelle
  imports Complex_Main
begin

section \<open>JavaScript numbers\<close>

text \<open>
  The source computes with JavaScript numbers. A number is modelled as a finite real or
  one of the three special values of IEEE 754 that JavaScript exposes. The operations
  below follow the ECMAScript rules for the special values (\<open>0/0\<close> is \<open>NaN\<close>, \<open>x/0\<close> is
  an infinity, every operation on \<open>NaN\<close> is \<open>NaN\<close>, \<open>Math.min\<close> and \<open>Math.max\<close>
  return \<open>NaN\<close> when an argument is \<open>NaN\<close>, a comparison with \<open>NaN\<close> is false).
  On finite operands the operations of this section are the exact operations of the
  reals; the rounding of a result to binary64 is a separate step, \<open>rnd\<close>, defined in the
  next section. The evaluator is given on the exact operations, which is where its closed
  forms and its ranges are stated; the constants behind the opacity are given a second
  time with every operation rounded, and the statements that depend on the exact value
  of a rounded result are made there. The sign of zero is not modelled (a zero divisor is
  taken as \<open>+0\<close>).
\<close>

datatype number = Fin real | PInf | NInf | NaN

definition signed_inf :: "real \<Rightarrow> number" where
  "signed_inf s = (if s = 0 then NaN else if 0 < s then PInf else NInf)"

instantiation number :: "{uminus, plus, minus, times, inverse, ord}"
begin

fun uminus_number :: "number \<Rightarrow> number" where
  "uminus_number (Fin a) = Fin (- a)"
| "uminus_number PInf = NInf"
| "uminus_number NInf = PInf"
| "uminus_number NaN = NaN"

fun plus_number :: "number \<Rightarrow> number \<Rightarrow> number" where
  "plus_number (Fin a) (Fin b) = Fin (a + b)"
| "plus_number NaN y = NaN"
| "plus_number x NaN = NaN"
| "plus_number PInf NInf = NaN"
| "plus_number NInf PInf = NaN"
| "plus_number PInf y = PInf"
| "plus_number x PInf = PInf"
| "plus_number NInf y = NInf"
| "plus_number x NInf = NInf"

definition minus_number :: "number \<Rightarrow> number \<Rightarrow> number" where
  "minus_number x y = x + (- y)"

fun times_number :: "number \<Rightarrow> number \<Rightarrow> number" where
  "times_number (Fin a) (Fin b) = Fin (a * b)"
| "times_number NaN y = NaN"
| "times_number x NaN = NaN"
| "times_number (Fin a) PInf = signed_inf a"
| "times_number (Fin a) NInf = signed_inf (- a)"
| "times_number PInf (Fin b) = signed_inf b"
| "times_number NInf (Fin b) = signed_inf (- b)"
| "times_number PInf PInf = PInf"
| "times_number PInf NInf = NInf"
| "times_number NInf PInf = NInf"
| "times_number NInf NInf = PInf"

fun divide_number :: "number \<Rightarrow> number \<Rightarrow> number" where
  "divide_number (Fin a) (Fin b) = (if b = 0 then signed_inf a else Fin (a / b))"
| "divide_number NaN y = NaN"
| "divide_number x NaN = NaN"
| "divide_number (Fin a) PInf = Fin 0"
| "divide_number (Fin a) NInf = Fin 0"
| "divide_number PInf (Fin b) = (if 0 \<le> b then PInf else NInf)"
| "divide_number NInf (Fin b) = (if 0 \<le> b then NInf else PInf)"
| "divide_number PInf y = NaN"
| "divide_number NInf y = NaN"

definition inverse_number :: "number \<Rightarrow> number" where
  "inverse_number x = divide (Fin 1) x"

fun less_number :: "number \<Rightarrow> number \<Rightarrow> bool" where
  "less_number (Fin a) (Fin b) = (a < b)"
| "less_number NaN y = False"
| "less_number x NaN = False"
| "less_number x NInf = False"
| "less_number PInf y = False"
| "less_number NInf y = True"
| "less_number x PInf = True"

fun less_eq_number :: "number \<Rightarrow> number \<Rightarrow> bool" where
  "less_eq_number (Fin a) (Fin b) = (a \<le> b)"
| "less_eq_number NaN y = False"
| "less_eq_number x NaN = False"
| "less_eq_number NInf y = True"
| "less_eq_number x PInf = True"
| "less_eq_number x NInf = False"
| "less_eq_number PInf y = False"

instance ..

end

text \<open>\<open>Math.max\<close>, \<open>Math.min\<close>, \<open>Math.pow\<close> with a literal non-negative integer exponent,
  \<open>Math.sin\<close>, \<open>Math.cos\<close> and \<open>Math.PI\<close>.\<close>

fun Math_max :: "number \<Rightarrow> number \<Rightarrow> number" where
  "Math_max (Fin a) (Fin b) = Fin (max a b)"
| "Math_max NaN y = NaN"
| "Math_max x NaN = NaN"
| "Math_max PInf y = PInf"
| "Math_max x PInf = PInf"
| "Math_max NInf y = y"
| "Math_max x NInf = x"

fun Math_min :: "number \<Rightarrow> number \<Rightarrow> number" where
  "Math_min (Fin a) (Fin b) = Fin (min a b)"
| "Math_min NaN y = NaN"
| "Math_min x NaN = NaN"
| "Math_min NInf y = NInf"
| "Math_min x NInf = NInf"
| "Math_min PInf y = y"
| "Math_min x PInf = x"

fun Math_pow :: "number \<Rightarrow> nat \<Rightarrow> number" where
  "Math_pow (Fin a) n = Fin (a ^ n)"
| "Math_pow NaN n = (if n = 0 then Fin 1 else NaN)"
| "Math_pow PInf n = (if n = 0 then Fin 1 else PInf)"
| "Math_pow NInf n = (if n = 0 then Fin 1 else if odd n then NInf else PInf)"

fun Math_sin :: "number \<Rightarrow> number" where
  "Math_sin (Fin a) = Fin (sin a)"
| "Math_sin x = NaN"

fun Math_cos :: "number \<Rightarrow> number" where
  "Math_cos (Fin a) = Fin (cos a)"
| "Math_cos x = NaN"

definition Math_PI :: number where
  "Math_PI = Fin pi"

definition is_finite :: "number \<Rightarrow> bool" where
  "is_finite x = (case x of Fin a \<Rightarrow> True | PInf \<Rightarrow> False | NInf \<Rightarrow> False | NaN \<Rightarrow> False)"


section \<open>Rounding to binary64\<close>

text \<open>
  Every arithmetic operation of the source returns the binary64 number nearest to the
  exact result, ties going to the even significand. \<open>fl\<close> is that rounding on the reals,
  with 53 significant bits and the subnormal numbers below \<open>2 powi (- 1022)\<close>;
  \<open>round64\<close> adds the overflow to an infinity, and \<open>rnd\<close> applies it to the result of an
  operation on \<open>number\<close>. A decimal literal of the source is the rounding of its value,
  \<open>round64 0.3\<close> for \<open>0.3\<close>.
\<close>

definition round_even :: "real \<Rightarrow> int" where
  "round_even q =
     (let f = \<lfloor>q\<rfloor>; r = q - of_int f
      in if r < 1 / 2 then f else if 1 / 2 < r then f + 1 else if even f then f else f + 1)"

definition expo :: "real \<Rightarrow> int" where
  "expo x = max \<lfloor>log 2 \<bar>x\<bar>\<rfloor> (- 1022)"

definition fl :: "real \<Rightarrow> real" where
  "fl x = of_int (round_even (x / 2 powi (expo x - 52))) * 2 powi (expo x - 52)"

definition round64 :: "real \<Rightarrow> number" where
  "round64 x =
     (if 2 ^ 1024 \<le> fl x then PInf else if fl x \<le> - (2 ^ 1024) then NInf else Fin (fl x))"

fun rnd :: "number \<Rightarrow> number" where
  "rnd (Fin a) = round64 a"
| "rnd PInf = PInf"
| "rnd NInf = NInf"
| "rnd NaN = NaN"


section \<open>The pose evaluator of \<open>Confetti\<close>\<close>

text \<open>
  The animation properties of one confetti, as \<open>getAnimationPropsForConfetti\<close> returns
  them. Its numeric fields are finite numbers (they are drawn from finite ranges), so
  they are reals here and enter the evaluator through \<open>Fin\<close>. \<open>color\<close> and \<open>image\<close> come
  from \<open>sample\<close>, which returns \<open>undefined\<close> (here \<open>None\<close>) on an empty array.
\<close>

record AnimationProps =
  delay :: real
  startX :: real
  startY :: real
  ascendingDuration :: real
  ascendingXOffset :: real
  ascendingYTarget :: real
  hoveringDuration :: real
  hoveringAmplitude :: real
  descendingDuration :: real
  descendingSpeedX :: real
  descendingSpeedY :: real
  descendingRandomFactor :: real
  rotationVelocity :: real
  scale :: real
  color :: "string option"
  imageSource :: "string option"

record Transforms2d =
  translateX :: number
  translateY :: number
  rotate2d :: number
  scale2d :: number

record Style =
  transform :: Transforms2d
  opacity :: number

definition easeInOutCubic :: "number \<Rightarrow> number" where
  "easeInOutCubic x =
     (if x < Fin 0.5 then Fin 4 * x * x * x
      else Fin 1 - Math_pow (Fin (- 2) * x + Fin 2) 3 / Fin 2)"

definition easeOutQuart :: "number \<Rightarrow> number" where
  "easeOutQuart x = Fin 1 - Math_pow (Fin 1 - x) 4"

definition fastInterpolate :: "number \<Rightarrow> number \<times> number \<Rightarrow> number \<times> number \<Rightarrow> number" where
  "fastInterpolate x inputRange outputRange =
     (let t = Math_min
                (Math_max ((x - fst inputRange) / (snd inputRange - fst inputRange)) (Fin 0))
                (Fin 1)
      in fst outputRange + t * (snd outputRange - fst outputRange))"

text \<open>The constants of the closure passed to \<open>useComputedValue\<close>, in the order of the
  source; \<open>time\<close> is \<open>time.current\<close>, the looped clock, a finite number.\<close>

definition ascendingTime :: "AnimationProps \<Rightarrow> real \<Rightarrow> number" where
  "ascendingTime p time = Math_max (Fin time - Fin (delay p)) (Fin 0)"

definition ascendingPercent :: "AnimationProps \<Rightarrow> real \<Rightarrow> number" where
  "ascendingPercent p time =
     Math_min (ascendingTime p time / Fin (ascendingDuration p)) (Fin 1)"

definition ascendingT :: "AnimationProps \<Rightarrow> real \<Rightarrow> number" where
  "ascendingT p time = easeInOutCubic (ascendingPercent p time)"

definition ascendingX :: "AnimationProps \<Rightarrow> real \<Rightarrow> number" where
  "ascendingX p time = Fin (startX p) + ascendingT p time * Fin (ascendingXOffset p)"

definition ascendingY :: "AnimationProps \<Rightarrow> real \<Rightarrow> number" where
  "ascendingY p time =
     Fin (startY p) + ascendingT p time * (Fin (ascendingYTarget p) - Fin (startY p))"

definition ascendingOpacity :: "AnimationProps \<Rightarrow> real \<Rightarrow> number" where
  "ascendingOpacity p time =
     fastInterpolate (ascendingPercent p time) (Fin 0.3, Fin 0.8) (Fin 0, Fin 1)"

definition hoveringTime :: "AnimationProps \<Rightarrow> real \<Rightarrow> number" where
  "hoveringTime p time =
     Math_max (Fin time - Fin (delay p) - Fin (ascendingDuration p)) (Fin 0)"

definition hoveringPercent :: "AnimationProps \<Rightarrow> real \<Rightarrow> number" where
  "hoveringPercent p time =
     Math_min (hoveringTime p time / Fin (hoveringDuration p)) (Fin 1)"

definition hoveringT :: "AnimationProps \<Rightarrow> real \<Rightarrow> number" where
  "hoveringT p time =
     easeOutQuart (hoveringPercent p time) *
     fastInterpolate (hoveringPercent p time) (Fin 0.8, Fin 1) (Fin 1, Fin 0.7)"

definition hoveringY :: "AnimationProps \<Rightarrow> real \<Rightarrow> number" where
  "hoveringY p time = - Fin (hoveringAmplitude p) * hoveringT p time"

definition descendingTime :: "AnimationProps \<Rightarrow> real \<Rightarrow> number" where
  "descendingTime p time =
     Math_max
       (Fin time - Fin (delay p) - Fin (ascendingDuration p) - Fin (hoveringDuration p))
       (Fin 0)"

definition descendingPercent :: "AnimationProps \<Rightarrow> real \<Rightarrow> number" where
  "descendingPercent p time =
     Math_min (descendingTime p time / Fin (descendingDuration p)) (Fin 1)"

definition descendingSpeedFactor :: "AnimationProps \<Rightarrow> real \<Rightarrow> number" where
  "descendingSpeedFactor p time =
     fastInterpolate (descendingTime p time) (Fin 0, Fin 1000) (Fin 0.7, Fin 1.0)"

definition descendingRotateAngle :: "AnimationProps \<Rightarrow> real \<Rightarrow> number" where
  "descendingRotateAngle p time =
     Fin (descendingRandomFactor p) +
     (descendingTime p time / Fin 1000) * (Fin 2 * Math_PI) * Fin (descendingRandomFactor p)"

definition descendingX :: "AnimationProps \<Rightarrow> real \<Rightarrow> number" where
  "descendingX p time =
     descendingTime p time * Fin (descendingSpeedX p) +
     Math_sin (descendingRotateAngle p time) * Fin 10"

definition descendingY :: "AnimationProps \<Rightarrow> real \<Rightarrow> number" where
  "descendingY p time =
     descendingTime p time * descendingSpeedFactor p time * Fin (descendingSpeedY p) +
     Math_cos (descendingRotateAngle p time) * Fin 10"

definition descendingOpacity :: "AnimationProps \<Rightarrow> real \<Rightarrow> number" where
  "descendingOpacity p time =
     fastInterpolate (descendingPercent p time) (Fin 0.8, Fin 1) (Fin 1, Fin 0)"

definition rotateAngle :: "AnimationProps \<Rightarrow> real \<Rightarrow> number" where
  "rotateAngle p time =
     ((hoveringTime p time / Fin 1000) * Fin (rotationVelocity p) * Math_PI) / Fin 180"

definition style :: "AnimationProps \<Rightarrow> real \<Rightarrow> Style" where
  "style p time =
     \<lparr>transform =
        \<lparr>translateX = ascendingX p time + descendingX p time,
         translateY = ascendingY p time + hoveringY p time + descendingY p time,
         rotate2d = rotateAngle p time,
         scale2d = Fin (scale p)\<rparr>,
      opacity = ascendingOpacity p time * descendingOpacity p time\<rparr>"


section \<open>The opacity of \<open>Confetti\<close> in binary64\<close>

text \<open>
  The constants that the opacity depends on, and \<open>fastInterpolate\<close>, once more, with the
  result of every \<open>+\<close>, \<open>-\<close>, \<open>*\<close> and \<open>/\<close> rounded. \<open>Math.max\<close> and \<open>Math.min\<close> return one of
  their arguments and do not round. The fields of the particle and the time are taken as
  they are: in the program they are binary64 numbers.
\<close>

definition fastInterpolate64 :: "number \<Rightarrow> number \<times> number \<Rightarrow> number \<times> number \<Rightarrow> number" where
  "fastInterpolate64 x inputRange outputRange =
     (let t = Math_min
                (Math_max
                   (rnd (rnd (x - fst inputRange) / rnd (snd inputRange - fst inputRange)))
                   (Fin 0))
                (Fin 1)
      in rnd (fst outputRange + rnd (t * rnd (snd outputRange - fst outputRange))))"









section \<open>Valid particles\<close>

text \<open>A particle is valid when its three phase durations are positive; its trajectory
  ends when its descending window does.\<close>

definition positive_durations :: "AnimationProps \<Rightarrow> bool" where
  "positive_durations p =
     (0 < ascendingDuration p \<and> 0 < hoveringDuration p \<and> 0 < descendingDuration p)"

definition trajectoryEnd :: "AnimationProps \<Rightarrow> real" where
  "trajectoryEnd p =
     delay p + ascendingDuration p + hoveringDuration p + descendingDuration p"


section \<open>Configuration\<close>

type_synonym ImageRequireSource = string

record ConfettiSkiaConfig =
  colors :: "string list"
  images :: "ImageRequireSource list"
  count :: nat
  delayRange :: "real \<times> real"
  xSpawnRange :: "real \<times> real"
  ySpawnRange :: "real \<times> real"
  ascendingDurationRange :: "real \<times> real"
  ascendingXOffsetRange :: "real \<times> real"
  hoveringDurationRange :: "real \<times> real"
  descendingDurationRange :: "real \<times> real"

text \<open>\<open>Partial<ConfettiSkiaConfig>\<close>: every field may be absent.\<close>

record Partial_ConfettiSkiaConfig =
  colors_opt :: "string list option"
  images_opt :: "ImageRequireSource list option"
  count_opt :: "nat option"
  delayRange_opt :: "(real \<times> real) option"
  xSpawnRange_opt :: "(real \<times> real) option"
  ySpawnRange_opt :: "(real \<times> real) option"
  ascendingDurationRange_opt :: "(real \<times> real) option"
  ascendingXOffsetRange_opt :: "(real \<times> real) option"
  hoveringDurationRange_opt :: "(real \<times> real) option"
  descendingDurationRange_opt :: "(real \<times> real) option"

definition defaultConfig :: ConfettiSkiaConfig where
  "defaultConfig =
     \<lparr>colors = [''#22e39e'', ''#ed4e4e'', ''#fea134'', ''#ff8fd8'', ''#5c59f3''],
      images = [''./assets/confetti1.png'', ''./assets/confetti2.png'',
                ''./assets/confetti3.png'', ''./assets/confetti4.png''],
      count = 50,
      delayRange = (0, 0),
      xSpawnRange = (0.4, 0.6),
      ySpawnRange = (0.5, 0.5),
      ascendingDurationRange = (500, 600),
      ascendingXOffsetRange = (- 200, 200),
      hoveringDurationRange = (200, 200),
      descendingDurationRange = (2000, 6000)\<rparr>"

text \<open>
  \<open>const resolvedConfig = {...defaultConfig, config}\<close> in \<open>ConfettiSkia\<close>: the object
  literal spreads \<open>defaultConfig\<close> and then adds one property named \<open>config\<close> whose value
  is the \<open>config\<close> prop (\<open>undefined\<close>, here \<open>None\<close>, when the caller passes none). The
  prop itself is not spread.
\<close>

record ResolvedConfig = ConfettiSkiaConfig +
  config :: "Partial_ConfettiSkiaConfig option"

definition resolvedConfig :: "Partial_ConfettiSkiaConfig option \<Rightarrow> ResolvedConfig" where
  "resolvedConfig config_prop =
     \<lparr>colors = colors defaultConfig,
      images = images defaultConfig,
      count = count defaultConfig,
      delayRange = delayRange defaultConfig,
      xSpawnRange = xSpawnRange defaultConfig,
      ySpawnRange = ySpawnRange defaultConfig,
      ascendingDurationRange = ascendingDurationRange defaultConfig,
      ascendingXOffsetRange = ascendingXOffsetRange defaultConfig,
      hoveringDurationRange = hoveringDurationRange defaultConfig,
      descendingDurationRange = descendingDurationRange defaultConfig,
      config = config_prop\<rparr>"

text \<open>The merge that the specification describes, for comparison: a field the caller
  supplied is taken from the caller, an omitted one from \<open>defaultConfig\<close>.\<close>

definition resolvedConfig_spec :: "Partial_ConfettiSkiaConfig option \<Rightarrow> ConfettiSkiaConfig" where
  "resolvedConfig_spec config_prop =
     (case config_prop of
        None \<Rightarrow> defaultConfig
      | Some c \<Rightarrow>
          \<lparr>colors = (case colors_opt c of None \<Rightarrow> colors defaultConfig | Some v \<Rightarrow> v),
           images = (case images_opt c of None \<Rightarrow> images defaultConfig | Some v \<Rightarrow> v),
           count = (case count_opt c of None \<Rightarrow> count defaultConfig | Some v \<Rightarrow> v),
           delayRange =
             (case delayRange_opt c of None \<Rightarrow> delayRange defaultConfig | Some v \<Rightarrow> v),
           xSpawnRange =
             (case xSpawnRange_opt c of None \<Rightarrow> xSpawnRange defaultConfig | Some v \<Rightarrow> v),
           ySpawnRange =
             (case ySpawnRange_opt c of None \<Rightarrow> ySpawnRange defaultConfig | Some v \<Rightarrow> v),
           ascendingDurationRange =
             (case ascendingDurationRange_opt c of
                None \<Rightarrow> ascendingDurationRange defaultConfig | Some v \<Rightarrow> v),
           ascendingXOffsetRange =
             (case ascendingXOffsetRange_opt c of
                None \<Rightarrow> ascendingXOffsetRange defaultConfig | Some v \<Rightarrow> v),
           hoveringDurationRange =
             (case hoveringDurationRange_opt c of
                None \<Rightarrow> hoveringDurationRange defaultConfig | Some v \<Rightarrow> v),
           descendingDurationRange =
             (case descendingDurationRange_opt c of
                None \<Rightarrow> descendingDurationRange defaultConfig | Some v \<Rightarrow> v)\<rparr>)"

text \<open>The partial configuration that supplies nothing, and one that supplies only a
  count of 10.\<close>

definition no_overrides :: Partial_ConfettiSkiaConfig where
  "no_overrides =
     \<lparr>colors_opt = None, images_opt = None, count_opt = None, delayRange_opt = None,
      xSpawnRange_opt = None, ySpawnRange_opt = None, ascendingDurationRange_opt = None,
      ascendingXOffsetRange_opt = None, hoveringDurationRange_opt = None,
      descendingDurationRange_opt = None\<rparr>"

definition count_10 :: Partial_ConfettiSkiaConfig where
  "count_10 = no_overrides\<lparr>count_opt := Some 10\<rparr>"

text \<open>\<open>totalDuration\<close> of \<open>ConfettiSkia\<close>: the sum of the upper bounds (index 1) of the
  three duration ranges.\<close>

definition totalDuration :: "'a ConfettiSkiaConfig_scheme \<Rightarrow> real" where
  "totalDuration rc =
     snd (ascendingDurationRange rc) + snd (hoveringDurationRange rc) +
     snd (descendingDurationRange rc)"


section \<open>Parameter generation\<close>

text \<open>
  \<open>random\<close> and \<open>sample\<close> are imported from lodash, which is not part of the repository.
  The outcome of the random draws is a parameter: \<open>random_l L k lower upper\<close> is the
  value returned by the \<open>k\<close>-th call \<open>random(lower, upper, true)\<close> of one run of
  \<open>getAnimationPropsForConfetti\<close>, and \<open>sample_l L k n\<close> is the index drawn by the \<open>k\<close>-th
  call of \<open>sample\<close> on an array of length \<open>n\<close>. lodash's \<open>random\<close> returns a number
  between its two bounds, whichever is the greater (it swaps them when
  \<open>lower > upper\<close>), and \<open>sample\<close> returns \<open>undefined\<close> on an empty array; neither throws.
\<close>

record lodash =
  random_l :: "nat \<Rightarrow> real \<Rightarrow> real \<Rightarrow> real"
  sample_l :: "nat \<Rightarrow> nat \<Rightarrow> nat"

definition random_in_bounds :: "lodash \<Rightarrow> bool" where
  "random_in_bounds L =
     (\<forall>k lower upper. min lower upper \<le> random_l L k lower upper \<and>
                       random_l L k lower upper \<le> max lower upper)"

definition sample :: "lodash \<Rightarrow> nat \<Rightarrow> 'a list \<Rightarrow> 'a option" where
  "sample L k array =
     (if length array = 0 then None
      else if sample_l L k (length array) < length array
           then Some (array ! sample_l L k (length array))
           else None)"

definition randomInRange :: "lodash \<Rightarrow> nat \<Rightarrow> real \<times> real \<Rightarrow> real" where
  "randomInRange L k range_arg = random_l L k (fst range_arg) (snd range_arg)"

text \<open>The source has no check of the configuration and no \<open>throw\<close>: the function
  returns its object literal on every input. \<open>InvalidConfig\<close> is the error that the
  specification names.\<close>

datatype error = InvalidConfig

definition getAnimationPropsForConfetti ::
  "lodash \<Rightarrow> real \<Rightarrow> real \<Rightarrow> 'a ConfettiSkiaConfig_scheme \<Rightarrow> error + AnimationProps" where
  "getAnimationPropsForConfetti L containerWidth containerHeight cfg =
     Inr \<lparr>delay = randomInRange L 0 (delayRange cfg),
          startX = randomInRange L 1 (xSpawnRange cfg) * containerWidth,
          startY = randomInRange L 2 (ySpawnRange cfg) * containerHeight,
          ascendingDuration = randomInRange L 3 (ascendingDurationRange cfg),
          ascendingXOffset = randomInRange L 4 (ascendingXOffsetRange cfg),
          ascendingYTarget = randomInRange L 5 (- 0.3, 0.2) * containerHeight,
          hoveringDuration = randomInRange L 6 (hoveringDurationRange cfg),
          hoveringAmplitude = randomInRange L 7 (2, 4),
          descendingDuration = randomInRange L 8 (descendingDurationRange cfg),
          descendingSpeedX = randomInRange L 9 (- 30, 30) / 1000,
          descendingSpeedY = randomInRange L 10 (150, 200) / 1000,
          descendingRandomFactor = randomInRange L 11 (- 1, 1),
          rotationVelocity = randomInRange L 12 (40, 360),
          scale = 0.9,
          color = sample L 0 (colors cfg),
          imageSource = sample L 1 (images cfg)\<rparr>"

text \<open>Two outcomes of the draws: every draw at the lower end (\<open>Math.random()\<close> returning
  0), and every draw at the upper end.\<close>

definition lodash_low :: lodash where
  "lodash_low = \<lparr>random_l = (\<lambda>k lower upper. min lower upper), sample_l = (\<lambda>k n. 0)\<rparr>"

definition lodash_high :: lodash where
  "lodash_high = \<lparr>random_l = (\<lambda>k lower upper. max lower upper), sample_l = (\<lambda>k n. n - 1)\<rparr>"

text \<open>The ranges of a configuration are ordered when each has its lower bound first.\<close>

definition ranges_ordered :: "'a ConfettiSkiaConfig_scheme \<Rightarrow> bool" where
  "ranges_ordered cfg =
     (fst (delayRange cfg) \<le> snd (delayRange cfg) \<and>
      fst (xSpawnRange cfg) \<le> snd (xSpawnRange cfg) \<and>
      fst (ySpawnRange cfg) \<le> snd (ySpawnRange cfg) \<and>
      fst (ascendingDurationRange cfg) \<le> snd (ascendingDurationRange cfg) \<and>
      fst (ascendingXOffsetRange cfg) \<le> snd (ascendingXOffsetRange cfg) \<and>
      fst (hoveringDurationRange cfg) \<le> snd (hoveringDurationRange cfg) \<and>
      fst (descendingDurationRange cfg) \<le> snd (descendingDurationRange cfg))"


section \<open>Example inputs\<close>

text \<open>A particle that the default configuration can generate on a canvas of 400 by 800:
  every field lies in the range it is drawn from.\<close>

definition particle_default :: AnimationProps where
  "particle_default =
     \<lparr>delay = 0, startX = 200, startY = 400,
      ascendingDuration = 500, ascendingXOffset = 100, ascendingYTarget = - 50,
      hoveringDuration = 200, hoveringAmplitude = 3,
      descendingDuration = 2000, descendingSpeedX = 0.01, descendingSpeedY = 0.15,
      descendingRandomFactor = 1, rotationVelocity = 180, scale = 0.9,
      color = Some ''#22e39e'', imageSource = Some ''./assets/confetti1.png''\<rparr>"


text \<open>The particle of the end-to-end scenario: durations 500, 200 and 2000, no delay,
  start at the origin, horizontal offset 100 and vertical target -50.\<close>

definition particle_scenario :: AnimationProps where
  "particle_scenario = particle_default\<lparr>startX := 0, startY := 0\<rparr>"

text \<open>A particle whose hovering phase has duration 0, as the ordered range \<open>[0, 0]\<close>
  yields.\<close>

definition particle_instant_hover :: AnimationProps where
  "particle_instant_hover = particle_default\<lparr>hoveringDuration := 0\<rparr>"


text \<open>The default configuration with a delay of up to one second, and a configuration
  with one inverted range and an empty colour palette.\<close>

definition config_delayed :: ConfettiSkiaConfig where
  "config_delayed = defaultConfig\<lparr>delayRange := (0, 1000)\<rparr>"

definition config_inverted :: ConfettiSkiaConfig where
  "config_inverted = defaultConfig\<lparr>colors := [], delayRange := (5, 1)\<rparr>"


section \<open>The evaluator on finite values\<close>

text \<open>The elapsed times are always finite, and so is every constant of the evaluator
  whose inputs are: the special values enter only through a division by a zero
  duration.\<close>

lemma fastInterpolate_Fin:
  "lo \<noteq> hi \<Longrightarrow>
   fastInterpolate (Fin x) (Fin lo, Fin hi) (Fin a, Fin b) =
     Fin (a + min (max ((x - lo) / (hi - lo)) 0) 1 * (b - a))"
  by (simp add: fastInterpolate_def minus_number_def)

lemma easeInOutCubic_Fin:
  "easeInOutCubic (Fin x) =
     Fin (if x < 1 / 2 then 4 * x * x * x else 1 - (- 2 * x + 2) ^ 3 / 2)"
  by (simp add: easeInOutCubic_def minus_number_def)

lemma easeOutQuart_Fin: "easeOutQuart (Fin x) = Fin (1 - (1 - x) ^ 4)"
  by (simp add: easeOutQuart_def minus_number_def)

lemma ascendingTime_Fin: "ascendingTime p t = Fin (max (t - delay p) 0)"
  by (simp add: ascendingTime_def minus_number_def)

lemma hoveringTime_Fin: "hoveringTime p t = Fin (max (t - delay p - ascendingDuration p) 0)"
  by (simp add: hoveringTime_def minus_number_def)

lemma descendingTime_Fin:
  "descendingTime p t =
     Fin (max (t - delay p - ascendingDuration p - hoveringDuration p) 0)"
  by (simp add: descendingTime_def minus_number_def)

lemma ascendingPercent_Fin:
  "ascendingDuration p \<noteq> 0 \<Longrightarrow>
   ascendingPercent p t = Fin (min (max (t - delay p) 0 / ascendingDuration p) 1)"
  by (simp add: ascendingPercent_def ascendingTime_Fin)

lemma hoveringPercent_Fin:
  "hoveringDuration p \<noteq> 0 \<Longrightarrow>
   hoveringPercent p t =
     Fin (min (max (t - delay p - ascendingDuration p) 0 / hoveringDuration p) 1)"
  by (simp add: hoveringPercent_def hoveringTime_Fin)

lemma descendingPercent_Fin:
  "descendingDuration p \<noteq> 0 \<Longrightarrow>
   descendingPercent p t =
     Fin (min (max (t - delay p - ascendingDuration p - hoveringDuration p) 0
               / descendingDuration p) 1)"
  by (simp add: descendingPercent_def descendingTime_Fin)

lemma rotateAngle_Fin:
  "rotateAngle p t =
     Fin (max (t - delay p - ascendingDuration p) 0 / 1000 * rotationVelocity p * pi / 180)"
  by (simp add: rotateAngle_def hoveringTime_Fin Math_PI_def)

lemma descendingRotateAngle_Fin:
  "descendingRotateAngle p t =
     Fin (descendingRandomFactor p +
          max (t - delay p - ascendingDuration p - hoveringDuration p) 0 / 1000 * (2 * pi)
          * descendingRandomFactor p)"
  by (simp add: descendingRotateAngle_def descendingTime_Fin Math_PI_def)

lemma descendingX_Fin:
  "descendingX p t =
     Fin (max (t - delay p - ascendingDuration p - hoveringDuration p) 0 * descendingSpeedX p +
          sin (descendingRandomFactor p +
               max (t - delay p - ascendingDuration p - hoveringDuration p) 0 / 1000 * (2 * pi)
               * descendingRandomFactor p) * 10)"
  by (simp add: descendingX_def descendingRotateAngle_Fin descendingTime_Fin)

lemma descendingSpeedFactor_Fin:
  "descendingSpeedFactor p t =
     Fin (0.7 + min (max (max (t - delay p - ascendingDuration p - hoveringDuration p) 0 / 1000) 0) 1
                * (1 - 0.7))"
  by (simp add: descendingSpeedFactor_def descendingTime_Fin fastInterpolate_Fin)

lemma descendingY_Fin:
  "descendingY p t =
     Fin (max (t - delay p - ascendingDuration p - hoveringDuration p) 0 *
          (0.7 + min (max (max (t - delay p - ascendingDuration p - hoveringDuration p) 0 / 1000) 0) 1
                * (1 - 0.7)) * descendingSpeedY p +
          cos (descendingRandomFactor p +
               max (t - delay p - ascendingDuration p - hoveringDuration p) 0 / 1000 * (2 * pi)
               * descendingRandomFactor p) * 10)"
  by (simp add: descendingY_def descendingRotateAngle_Fin descendingTime_Fin descendingSpeedFactor_Fin)

lemma ascendingOpacity_Fin:
  "ascendingPercent p t = Fin a \<Longrightarrow>
   ascendingOpacity p t = Fin (min (max ((a - 3 / 10) * 2) 0) 1)"
  by (simp add: ascendingOpacity_def fastInterpolate_Fin)

lemma descendingOpacity_Fin:
  "descendingPercent p t = Fin d \<Longrightarrow>
   descendingOpacity p t = Fin (1 - min (max ((d - 4 / 5) * 5) 0) 1)"
  by (simp add: descendingOpacity_def fastInterpolate_Fin)

lemma opacity_Fin:
  assumes "ascendingPercent p t = Fin a" and "descendingPercent p t = Fin d"
  shows "opacity (style p t) =
           Fin (min (max ((a - 3 / 10) * 2) 0) 1 * (1 - min (max ((d - 4 / 5) * 5) 0) 1))"
  by (simp add: style_def ascendingOpacity_Fin [OF assms(1)] descendingOpacity_Fin [OF assms(2)])

lemma ascendingT_Fin:
  "ascendingPercent p t = Fin a \<Longrightarrow>
   ascendingT p t = Fin (if a < 1 / 2 then 4 * a * a * a else 1 - (- 2 * a + 2) ^ 3 / 2)"
  by (simp add: ascendingT_def easeInOutCubic_Fin)

lemma hoveringT_Fin:
  "hoveringPercent p t = Fin b \<Longrightarrow>
   hoveringT p t = Fin ((1 - (1 - b) ^ 4) * (1 + min (max ((b - 4 / 5) * 5) 0) 1 * (7 / 10 - 1)))"
  by (simp add: hoveringT_def easeOutQuart_Fin fastInterpolate_Fin)

lemma ascendingX_Fin:
  "ascendingT p t = Fin e \<Longrightarrow> ascendingX p t = Fin (startX p + e * ascendingXOffset p)"
  by (simp add: ascendingX_def)

lemma ascendingY_Fin:
  "ascendingT p t = Fin e \<Longrightarrow>
   ascendingY p t = Fin (startY p + e * (ascendingYTarget p - startY p))"
  by (simp add: ascendingY_def minus_number_def)

lemma hoveringY_Fin:
  "hoveringT p t = Fin h \<Longrightarrow> hoveringY p t = Fin (- hoveringAmplitude p * h)"
  by (simp add: hoveringY_def)


subsection \<open>Saturation of the completion fractions\<close>

lemma ascendingPercent_before:
  "ascendingDuration p \<noteq> 0 \<Longrightarrow> t \<le> delay p \<Longrightarrow> ascendingPercent p t = Fin 0"
  by (simp add: ascendingPercent_Fin max_def)



lemma descendingPercent_after:
  assumes "0 < descendingDuration p" and "trajectoryEnd p \<le> t"
  shows "descendingPercent p t = Fin 1"
proof -
  have "descendingDuration p \<le> t - delay p - ascendingDuration p - hoveringDuration p"
    using assms(2) by (simp add: trajectoryEnd_def)
  then have "1 \<le> max (t - delay p - ascendingDuration p - hoveringDuration p) 0
                  / descendingDuration p"
    using assms(1) by (simp add: le_divide_eq max_def)
  then show ?thesis
    using assms(1) by (simp add: descendingPercent_Fin)
qed



section \<open>Properties of the rounding\<close>

subsection \<open>Rounding to the nearest integer, ties to even\<close>

lemma round_even_bounds: "\<lfloor>q\<rfloor> \<le> round_even q" "round_even q \<le> \<lfloor>q\<rfloor> + 1"
  by (simp_all add: round_even_def Let_def)

lemma round_even_of_int: "round_even (of_int n) = n"
  by (simp add: round_even_def)

lemma round_even_0: "round_even 0 = 0"
  using round_even_of_int [of 0] by simp

lemma round_even_mono:
  assumes "q \<le> q'"
  shows "round_even q \<le> round_even q'"
proof (cases "\<lfloor>q\<rfloor> = \<lfloor>q'\<rfloor>")
  case True
  then show ?thesis
    using assms by (auto simp add: round_even_def Let_def)
next
  case False
  then have "\<lfloor>q\<rfloor> < \<lfloor>q'\<rfloor>"
    using assms by (simp add: floor_mono le_neq_trans)
  then have "round_even q \<le> \<lfloor>q'\<rfloor>"
    using round_even_bounds(2) [of q] by linarith
  then show ?thesis
    using round_even_bounds(1) [of q'] by linarith
qed

lemma round_even_le: "q \<le> of_int n \<Longrightarrow> round_even q \<le> n"
  using round_even_mono [of q "of_int n"] by (simp add: round_even_of_int)

lemma round_even_ge: "of_int n \<le> q \<Longrightarrow> n \<le> round_even q"
  using round_even_mono [of "of_int n" q] by (simp add: round_even_of_int)

lemma round_even_minus: "round_even (- q) = - round_even q"
proof (cases "q \<in> \<int>")
  case True
  then obtain n where "q = of_int n"
    by (auto elim: Ints_cases)
  then show ?thesis
    by (simp add: round_even_of_int flip: of_int_minus)
next
  case False
  then have ne: "q \<noteq> of_int \<lfloor>q\<rfloor>"
    by (metis Ints_of_int)
  then have f: "\<lfloor>- q\<rfloor> = - \<lfloor>q\<rfloor> - 1"
    by (simp add: floor_minus ceiling_altdef)
  from ne have r: "0 < q - of_int \<lfloor>q\<rfloor>" "q - of_int \<lfloor>q\<rfloor> < 1"
    by linarith+
  show ?thesis
    using r by (auto simp add: round_even_def Let_def f)
qed

lemma round_even_abs_le:
  assumes "\<bar>q\<bar> \<le> of_int n"
  shows "\<bar>round_even q\<bar> \<le> n"
proof -
  have "q \<le> of_int n" "of_int (- n) \<le> q"
    using assms by simp_all
  then have "round_even q \<le> n" "- n \<le> round_even q"
    by (simp_all only: round_even_le round_even_ge)
  then show ?thesis by simp
qed

lemma round_even_near:
  assumes "\<bar>q - of_int m\<bar> < 1 / 2"
  shows "round_even q = m"
proof -
  have "\<lfloor>q\<rfloor> = m \<or> \<lfloor>q\<rfloor> = m - 1"
    using assms by (auto simp add: abs_if split: if_splits) linarith+
  then show ?thesis
    using assms by (auto simp add: round_even_def Let_def abs_if split: if_splits)
qed

lemma round_even_tie:
  assumes "\<bar>q - of_int m\<bar> = 1 / 2" and "even m"
  shows "round_even q = m"
proof -
  consider "q = of_int m + 1 / 2" | "q = of_int (m - 1) + 1 / 2"
    using assms(1) by (auto simp add: abs_if split: if_splits)
  then show ?thesis
  proof cases
    case 1
    then have "\<lfloor>q\<rfloor> = m"
      by (simp add: floor_unique)
    then show ?thesis
      using 1 assms(2) by (simp add: round_even_def Let_def)
  next
    case 2
    then have "\<lfloor>q\<rfloor> = m - 1"
      by (intro floor_unique) simp_all
    then show ?thesis
      using 2 assms(2) by (simp add: round_even_def Let_def)
  qed
qed

subsection \<open>The exponent\<close>

lemma floor_log2_powi:
  assumes "0 < a"
  shows "\<lfloor>log 2 a\<rfloor> = k \<longleftrightarrow> 2 powi k \<le> a \<and> a < 2 powi (k + 1)"
proof -
  have p: "(2::real) powr real_of_int k = 2 powi k"
    by (rule powr_real_of_int') simp_all
  have "(2::real) powr real_of_int (k + 1) = 2 powi (k + 1)"
    by (rule powr_real_of_int') simp_all
  then have q: "(2::real) powr (real_of_int k + 1) = 2 powi (k + 1)"
    by simp
  show ?thesis
    using floor_log_eq_powr_iff [of a 2 k] assms p q by simp
qed

lemma expo_eq:
  assumes "2 powi e \<le> \<bar>x\<bar>" and "\<bar>x\<bar> < 2 powi (e + 1)" and "- 1022 \<le> e"
  shows "expo x = e"
proof -
  have "0 < \<bar>x\<bar>"
    using assms(1) by (smt (verit) zero_less_power_int)
  then have "\<lfloor>log 2 \<bar>x\<bar>\<rfloor> = e"
    using assms(1,2) by (simp add: floor_log2_powi)
  then show ?thesis
    using assms(3) by (simp add: expo_def)
qed

lemma expo_subnormal:
  assumes "x \<noteq> 0" and "\<bar>x\<bar> < 2 powi (- 1022)"
  shows "expo x = - 1022"
proof -
  define k where "k = \<lfloor>log 2 \<bar>x\<bar>\<rfloor>"
  have "2 powi k \<le> \<bar>x\<bar>"
    using floor_log2_powi [of "\<bar>x\<bar>" k] assms(1) by (simp add: k_def)
  then have "(2::real) powi k < 2 powi (- 1022)"
    using assms(2) by linarith
  then have "k < - 1022"
    using power_int_increasing [of "- 1022" k "2::real"] by (cases "k < - 1022") simp_all
  then show ?thesis
    by (simp add: expo_def k_def)
qed

lemma expo_minus: "expo (- x) = expo x"
  by (simp add: expo_def)

lemma expo_ge: "- 1022 \<le> expo x"
  by (simp add: expo_def)

lemma expo_upper:
  assumes "x \<noteq> 0"
  shows "\<bar>x\<bar> < 2 powi (expo x + 1)"
proof -
  define k where "k = \<lfloor>log 2 \<bar>x\<bar>\<rfloor>"
  have "\<bar>x\<bar> < 2 powi (k + 1)"
    using floor_log2_powi [of "\<bar>x\<bar>" k] assms by (simp add: k_def)
  moreover have "(2::real) powi (k + 1) \<le> 2 powi (expo x + 1)"
    by (rule power_int_increasing) (simp_all add: expo_def k_def)
  ultimately show ?thesis by linarith
qed

lemma expo_lower:
  assumes "x \<noteq> 0" and "- 1022 < expo x"
  shows "2 powi (expo x) \<le> \<bar>x\<bar>"
proof -
  define k where "k = \<lfloor>log 2 \<bar>x\<bar>\<rfloor>"
  from assms(2) have e: "expo x = k"
    by (simp add: expo_def k_def max_def split: if_splits)
  show ?thesis
    using floor_log2_powi [of "\<bar>x\<bar>" k] assms(1) by (simp add: e) (simp add: k_def)
qed

lemma expo_mono:
  assumes "x \<noteq> 0" and "\<bar>x\<bar> \<le> \<bar>y\<bar>"
  shows "expo x \<le> expo y"
proof -
  have "log 2 \<bar>x\<bar> \<le> log 2 \<bar>y\<bar>"
    using assms by (simp add: log_le_cancel_iff)
  then show ?thesis
    by (simp add: expo_def floor_mono max.coboundedI1)
qed

subsection \<open>Rounding is odd, monotone and idempotent\<close>

lemma fl_0: "fl 0 = 0"
  by (simp add: fl_def round_even_0)

lemma fl_minus: "fl (- x) = - fl x"
  by (simp add: fl_def round_even_minus expo_minus)

lemma fl_nonneg:
  assumes "0 \<le> x"
  shows "0 \<le> fl x"
proof -
  have "0 \<le> x / 2 powi (expo x - 52)"
    using assms by simp
  then have "0 \<le> round_even (x / 2 powi (expo x - 52))"
    using round_even_ge [of 0 "x / 2 powi (expo x - 52)"] by simp
  then show ?thesis
    by (simp add: fl_def)
qed

lemma fl_upper:
  assumes "0 < x"
  shows "fl x \<le> 2 powi (expo x + 1)"
proof -
  define u :: real where "u = 2 powi (expo x - 52)"
  have u: "0 < u" by (simp add: u_def)
  have "x < 2 powi (expo x + 1)"
    using expo_upper [of x] assms by simp
  also have "(2::real) powi (expo x + 1) = 2 ^ 53 * u"
    by (simp add: u_def power_int_diff power_int_add)
  finally have "x / u \<le> of_int (2 ^ 53)"
    using u by (simp add: pos_divide_le_eq)
  then have "round_even (x / u) \<le> 2 ^ 53"
    by (rule round_even_le)
  then have "real_of_int (round_even (x / u)) \<le> 2 ^ 53"
    by simp
  then have "of_int (round_even (x / u)) * u \<le> 2 ^ 53 * u"
    using u by (intro mult_right_mono) simp_all
  then show ?thesis
    by (simp add: fl_def u_def power_int_diff power_int_add)
qed

lemma fl_lower:
  assumes "0 < x" and "- 1022 < expo x"
  shows "2 powi (expo x) \<le> fl x"
proof -
  define u :: real where "u = 2 powi (expo x - 52)"
  have u: "0 < u" by (simp add: u_def)
  have e: "(2::real) powi (expo x) = 2 ^ 52 * u"
    by (simp add: u_def power_int_diff)
  have "2 powi (expo x) \<le> x"
    using expo_lower [of x] assms by simp
  then have "of_int (2 ^ 52) \<le> x / u"
    using u by (simp add: e pos_le_divide_eq)
  then have "2 ^ 52 \<le> round_even (x / u)"
    by (rule round_even_ge)
  then have "2 ^ 52 \<le> real_of_int (round_even (x / u))"
    by simp
  then have "2 ^ 52 * u \<le> of_int (round_even (x / u)) * u"
    using u by (intro mult_right_mono) simp_all
  then show ?thesis
    by (simp add: fl_def e) (simp add: u_def)
qed

lemma fl_mono_pos:
  assumes "0 < x" and "x \<le> y"
  shows "fl x \<le> fl y"
proof (cases "expo x = expo y")
  case True
  have "x / 2 powi (expo y - 52) \<le> y / 2 powi (expo y - 52)"
    using assms(2) by (simp add: divide_right_mono)
  then have "round_even (x / 2 powi (expo y - 52)) \<le> round_even (y / 2 powi (expo y - 52))"
    by (rule round_even_mono)
  then show ?thesis
    by (simp add: fl_def True mult_right_mono)
next
  case False
  have "expo x \<le> expo y"
    using expo_mono [of x y] assms by simp
  with False have lt: "expo x < expo y"
    by simp
  have "fl x \<le> 2 powi (expo x + 1)"
    using assms(1) by (rule fl_upper)
  also have "(2::real) powi (expo x + 1) \<le> 2 powi (expo y)"
    using lt by (intro power_int_increasing) simp_all
  also have "2 powi (expo y) \<le> fl y"
    using assms lt expo_ge [of x] by (intro fl_lower) simp_all
  finally show ?thesis .
qed

lemma fl_mono:
  assumes "x \<le> y"
  shows "fl x \<le> fl y"
proof -
  consider "0 < x" | "x \<le> 0" "0 \<le> y" | "y < 0"
    by linarith
  then show ?thesis
  proof cases
    case 1
    then show ?thesis using assms by (rule fl_mono_pos)
  next
    case 2
    then have "0 \<le> fl (- x)" "0 \<le> fl y"
      by (simp_all add: fl_nonneg)
    then show ?thesis
      by (simp add: fl_minus)
  next
    case 3
    then have "fl (- y) \<le> fl (- x)"
      using assms by (intro fl_mono_pos) simp_all
    then show ?thesis
      by (simp add: fl_minus)
  qed
qed

lemma fl_representable:
  assumes "\<bar>n\<bar> < 2 ^ 53" and "- 1074 \<le> k"
  shows "fl (of_int n * 2 powi k) = of_int n * 2 powi k"
proof (cases "n = 0")
  case True
  then show ?thesis by (simp add: fl_0)
next
  case False
  define x :: real where "x = of_int n * 2 powi k"
  have x0: "x \<noteq> 0"
    using False by (simp add: x_def)
  have ax: "\<bar>x\<bar> < 2 ^ 53 * 2 powi k"
  proof -
    have "real_of_int \<bar>n\<bar> < 2 ^ 53"
      using assms(1) by simp
    then show ?thesis
      by (simp add: x_def abs_mult)
  qed
  have ek: "expo x - 52 \<le> k"
  proof (cases "- 1022 < expo x")
    case True
    then have "2 powi (expo x) \<le> \<bar>x\<bar>"
      using x0 by (intro expo_lower)
    then have "(2::real) powi (expo x) < 2 powi (k + 53)"
      using ax by (simp add: power_int_add)
    then have "expo x < k + 53"
      using power_int_increasing [of "k + 53" "expo x" "2::real"]
      by (cases "expo x < k + 53") simp_all
    then show ?thesis by simp
  next
    case False
    then have "expo x = - 1022"
      using expo_ge [of x] by simp
    then show ?thesis
      using assms(2) by simp
  qed
  define d where "d = nat (k - (expo x - 52))"
  have k: "k = (expo x - 52) + int d"
    using ek by (simp add: d_def)
  have "(2::real) powi k = 2 powi (expo x - 52 + int d)"
    by (rule arg_cong [where f = "power_int 2"]) (fact k)
  also have "\<dots> = 2 powi (expo x - 52) * 2 powi (int d)"
    by (rule power_int_add) simp
  finally have kk: "(2::real) powi k = 2 powi (expo x - 52) * 2 ^ d"
    by (simp only: power_int_of_nat)
  have xk: "x = of_int n * (2 powi (expo x - 52) * 2 ^ d)"
    by (subst kk [symmetric]) (fact x_def)
  have "x / 2 powi (expo x - 52) = of_int (n * 2 ^ d)"
    by (subst xk) simp
  then have "round_even (x / 2 powi (expo x - 52)) = n * 2 ^ d"
    by (simp only: round_even_of_int)
  then have "fl x = of_int (n * 2 ^ d) * 2 powi (expo x - 52)"
    by (simp add: fl_def)
  also have "\<dots> = x"
    by (subst (2) xk) simp
  finally show ?thesis
    by (simp add: x_def)
qed

lemma fl_fl: "fl (fl x) = fl x"
proof (cases "x = 0")
  case True
  then show ?thesis by (simp add: fl_0)
next
  case False
  define k where "k = expo x - 52"
  define m where "m = round_even (x / 2 powi k)"
  have k: "- 1074 \<le> k"
    using expo_ge [of x] by (simp add: k_def)
  have flx: "fl x = of_int m * 2 powi k"
    by (simp add: fl_def m_def k_def)
  have "\<bar>x\<bar> < 2 powi (expo x + 1)"
    using False by (rule expo_upper)
  also have "(2::real) powi (expo x + 1) = 2 ^ 53 * 2 powi k"
    by (simp add: k_def power_int_diff power_int_add)
  finally have "\<bar>x / 2 powi k\<bar> \<le> of_int (2 ^ 53)"
    by (simp add: abs_divide pos_divide_le_eq)
  then have m: "\<bar>m\<bar> \<le> 2 ^ 53"
    unfolding m_def by (rule round_even_abs_le)
  show ?thesis
  proof (cases "\<bar>m\<bar> < 2 ^ 53")
    case True
    then show ?thesis
      using fl_representable [of m k] k by (simp add: flx)
  next
    case False
    with m have "\<bar>m\<bar> = 2 ^ 53"
      by simp
    then consider "m = 2 ^ 53" | "m = - (2 ^ 53)"
      by (auto simp add: abs_if split: if_splits)
    then show ?thesis
    proof cases
      case 1
      then have "fl x = of_int (2 ^ 52) * 2 powi (k + 1)"
        by (simp add: flx power_int_add)
      then show ?thesis
        using fl_representable [of "2 ^ 52" "k + 1"] k by simp
    next
      case 2
      then have "fl x = of_int (- (2 ^ 52)) * 2 powi (k + 1)"
        by (simp add: flx power_int_add)
      then show ?thesis
        using fl_representable [of "- (2 ^ 52)" "k + 1"] k by simp
    qed
  qed
qed

lemma fl_eval:
  assumes "- 1074 \<le> k" and "2 powi (k + 52) \<le> \<bar>x\<bar>" and "\<bar>x\<bar> < 2 powi (k + 53)"
  shows "fl x = of_int (round_even (x / 2 powi k)) * 2 powi k"
proof -
  have "expo x = k + 52"
    using assms by (intro expo_eq) (simp_all add: add.assoc)
  then show ?thesis
    by (simp add: fl_def)
qed

subsection \<open>Rounding with overflow\<close>

lemma fl_1: "fl 1 = 1"
  using fl_representable [of 1 0] by simp

lemma round64_0: "round64 0 = Fin 0"
  by (simp add: round64_def fl_0)

lemma round64_1: "round64 1 = Fin 1"
  by (simp add: round64_def fl_1)

lemma round64_cases:
  obtains (fin) "round64 x = Fin (fl x)" | (pinf) "round64 x = PInf" "0 < fl x"
  | (ninf) "round64 x = NInf" "fl x < 0"
proof (cases "2 ^ 1024 \<le> fl x")
  case True
  then have "round64 x = PInf" "0 < fl x"
    by (simp_all add: round64_def)
  then show ?thesis by (rule pinf)
next
  case False
  show ?thesis
  proof (cases "fl x \<le> - (2 ^ 1024)")
    case True
    then have "round64 x = NInf" "fl x < 0"
      using False by (simp_all add: round64_def)
    then show ?thesis by (rule ninf)
  next
    case f: False
    then have "round64 x = Fin (fl x)"
      using False by (simp add: round64_def)
    then show ?thesis by (rule fin)
  qed
qed

lemma round64_mono:
  assumes "x \<le> y"
  shows "round64 x \<le> round64 y"
proof -
  have "fl x \<le> fl y"
    using assms by (rule fl_mono)
  then show ?thesis
    by (auto simp add: round64_def)
qed

lemma round64_finite:
  assumes "fl x = of_int m * 2 powi k" and "\<bar>m\<bar> \<le> 2 ^ 53" and "k \<le> 970"
  shows "round64 x = Fin (of_int m * 2 powi k)"
proof -
  have "\<bar>real_of_int m\<bar> \<le> 2 ^ 53"
    using assms(2) by (simp flip: of_int_abs)
  moreover have "(2::real) powi k \<le> 2 powi 970"
    using assms(3) by (intro power_int_increasing) simp_all
  ultimately have "\<bar>real_of_int m\<bar> * 2 powi k \<le> 2 ^ 53 * 2 powi 970"
    by (intro mult_mono) simp_all
  also have "\<dots> < 2 ^ 1024"
    by simp
  finally have "\<bar>fl x\<bar> < 2 ^ 1024"
    by (simp add: assms(1) abs_mult)
  then show ?thesis
    by (simp add: round64_def assms(1) abs_if split: if_splits)
qed




lemma round64_Fin_eq:
  assumes "round64 x = Fin v"
  shows "v = fl x" and "round64 v = Fin v"
proof -
  show v: "v = fl x"
    using assms by (simp add: round64_def split: if_splits)
  show "round64 v = Fin v"
    using assms by (simp add: round64_def v fl_fl split: if_splits)
qed

lemma round64_between:
  assumes "round64 a = Fin a'" and "round64 b = Fin b'"
    and "min a b \<le> y" and "y \<le> max a b"
  shows "\<exists>v. round64 y = Fin v \<and> min a' b' \<le> v \<and> v \<le> max a' b'"
proof -
  have a: "a' = fl a" "\<not> 2 ^ 1024 \<le> fl a" "\<not> fl a \<le> - (2 ^ 1024)"
    using assms(1) by (simp_all add: round64_def split: if_splits)
  have b: "b' = fl b" "\<not> 2 ^ 1024 \<le> fl b" "\<not> fl b \<le> - (2 ^ 1024)"
    using assms(2) by (simp_all add: round64_def split: if_splits)
  have "fl (min a b) \<le> fl y" "fl y \<le> fl (max a b)"
    using assms(3,4) by (simp_all add: fl_mono)
  then have y: "min (fl a) (fl b) \<le> fl y" "fl y \<le> max (fl a) (fl b)"
    by (auto simp add: min_def max_def split: if_splits
        intro: order_trans [OF _ fl_mono] order_trans [OF fl_mono])
  then have "round64 y = Fin (fl y)"
    using a(2,3) b(2,3) by (auto simp add: round64_def min_def max_def split: if_splits)
  then show ?thesis
    using y by (simp add: a(1) b(1))
qed

text \<open>Three ways of computing a rounding: the exact result has at most 53 significant
  bits; it is nearer to one binary64 number than to any other; it is half-way between
  two and the even one is taken.\<close>

lemma round64_exact:
  assumes "\<bar>n\<bar> < 2 ^ 53" and "- 1074 \<le> k" and "k \<le> 970" and "x = of_int n * 2 powi k"
  shows "round64 x = Fin x"
proof -
  have "fl x = of_int n * 2 powi k"
    using fl_representable [OF assms(1,2)] by (simp add: assms(4))
  then have "round64 x = Fin (of_int n * 2 powi k)"
    using assms(1,3) by (intro round64_finite) simp_all
  then show ?thesis
    by (simp add: assms(4))
qed

lemma round64_near:
  assumes "- 1074 \<le> k" and "k \<le> 970"
    and "2 powi (k + 52) \<le> \<bar>x\<bar>" and "\<bar>x\<bar> < 2 powi (k + 53)"
    and "\<bar>x - of_int m * 2 powi k\<bar> < 2 powi k / 2"
  shows "round64 x = Fin (of_int m * 2 powi k)"
proof -
  have "x / 2 powi k - of_int m = (x - of_int m * 2 powi k) / 2 powi k"
    by (simp add: field_simps)
  then have "\<bar>x / 2 powi k - of_int m\<bar> = \<bar>x - of_int m * 2 powi k\<bar> / 2 powi k"
    by (simp only: abs_divide) simp
  also have "\<dots> < 1 / 2"
    using assms(5) by (simp add: pos_divide_less_eq)
  finally have r: "round_even (x / 2 powi k) = m"
    by (rule round_even_near)
  have "\<bar>x / 2 powi k\<bar> \<le> of_int (2 ^ 53)"
    using assms(4) by (simp add: abs_divide pos_divide_le_eq power_int_add)
  then have "\<bar>round_even (x / 2 powi k)\<bar> \<le> 2 ^ 53"
    by (rule round_even_abs_le)
  then have m: "\<bar>m\<bar> \<le> 2 ^ 53"
    by (simp only: r)
  have "fl x = of_int m * 2 powi k"
    using fl_eval [OF assms(1,3,4)] by (simp only: r)
  then show ?thesis
    using m assms(2) by (rule round64_finite)
qed

lemma round64_tie:
  assumes "- 1074 \<le> k" and "k \<le> 970"
    and "2 powi (k + 52) \<le> \<bar>x\<bar>" and "\<bar>x\<bar> < 2 powi (k + 53)"
    and "\<bar>x - of_int m * 2 powi k\<bar> = 2 powi k / 2" and "even m"
  shows "round64 x = Fin (of_int m * 2 powi k)"
proof -
  have "x / 2 powi k - of_int m = (x - of_int m * 2 powi k) / 2 powi k"
    by (simp add: field_simps)
  then have "\<bar>x / 2 powi k - of_int m\<bar> = \<bar>x - of_int m * 2 powi k\<bar> / 2 powi k"
    by (simp only: abs_divide) simp
  also have "\<dots> = 1 / 2"
    by (simp add: assms(5))
  finally have r: "round_even (x / 2 powi k) = m"
    using assms(6) by (rule round_even_tie)
  have "\<bar>x / 2 powi k\<bar> \<le> of_int (2 ^ 53)"
    using assms(4) by (simp add: abs_divide pos_divide_le_eq power_int_add)
  then have "\<bar>round_even (x / 2 powi k)\<bar> \<le> 2 ^ 53"
    by (rule round_even_abs_le)
  then have m: "\<bar>m\<bar> \<le> 2 ^ 53"
    by (simp only: r)
  have "fl x = of_int m * 2 powi k"
    using fl_eval [OF assms(1,3,4)] by (simp only: r)
  then show ?thesis
    using m assms(2) by (rule round64_finite)
qed


subsection \<open>The literals of the source\<close>

lemma lit_03: "round64 0.3 = Fin (5404319552844595 / 2 ^ 54)"
  using round64_near [of "- 54" "3 / 10" 5404319552844595] by simp

lemma lit_07: "round64 0.7 = Fin (3152519739159347 / 2 ^ 52)"
  using round64_near [of "- 53" "7 / 10" 6305039478318694] by simp

lemma lit_08: "round64 0.8 = Fin (3602879701896397 / 2 ^ 52)"
  using round64_near [of "- 53" "8 / 10" 7205759403792794] by simp

lemma lit_09: "round64 0.9 = Fin (8106479329266893 / 2 ^ 53)"
  using round64_near [of "- 53" "9 / 10" 8106479329266893] by simp

lemma round64_minus_1: "round64 (- 1) = Fin (- 1)"
  using round64_exact [of "- 1" 0 "- 1"] by simp

lemma round64_1000: "round64 1000 = Fin 1000"
  using round64_exact [of 1000 0 1000] by simp

lemma round64_2700: "round64 2700 = Fin 2700"
  using round64_exact [of 2700 0 2700] by simp

lemma round64_2200: "round64 2200 = Fin 2200"
  using round64_exact [of 2200 0 2200] by simp

lemma round64_2000: "round64 2000 = Fin 2000"
  using round64_exact [of 2000 0 2000] by simp

lemmas round64_ints =
  round64_0 round64_1 round64_minus_1 round64_1000 round64_2000 round64_2200 round64_2700

lemma width_03_08:
  "round64 (3602879701896397 / 2 ^ 52 - 5404319552844595 / 2 ^ 54) = Fin (1 / 2)"
  using round64_tie [of "- 53" "3602879701896397 / 2 ^ 52 - 5404319552844595 / 2 ^ 54"
      4503599627370496]
  by simp

lemma width_08_1: "round64 (1 - 3602879701896397 / 2 ^ 52) = Fin (900719925474099 / 2 ^ 52)"
  using round64_exact [of 900719925474099 "- 52" "1 - 3602879701896397 / 2 ^ 52"] by simp

lemma span_1_07: "round64 (3152519739159347 / 2 ^ 52 - 1) = Fin (- (1351079888211149 / 2 ^ 52))"
  using round64_exact [of "- 1351079888211149" "- 52" "3152519739159347 / 2 ^ 52 - 1"] by simp

lemma span_07_1: "round64 (1 - 3152519739159347 / 2 ^ 52) = Fin (1351079888211149 / 2 ^ 52)"
  using round64_exact [of 1351079888211149 "- 52" "1 - 3152519739159347 / 2 ^ 52"] by simp

lemma double_07: "round64 (3152519739159347 / 2 ^ 52) = Fin (3152519739159347 / 2 ^ 52)"
  using round64_exact [of 3152519739159347 "- 52" "3152519739159347 / 2 ^ 52"] by simp


section \<open>The rounded interpolation\<close>

text \<open>The clamped position is in [0, 1], 0 at and below the lower input bound and 1 at and
  above the upper one, when the rounded width of the input range is positive.\<close>

lemma position64:
  assumes "round64 (inHi - inLo) = Fin w" and "0 < w"
  shows "\<exists>s. Math_min (Math_max (rnd (rnd (Fin x - Fin inLo) / Fin w)) (Fin 0)) (Fin 1) = Fin s \<and>
             0 \<le> s \<and> s \<le> 1 \<and> (x \<le> inLo \<longrightarrow> s = 0) \<and> (inHi \<le> x \<longrightarrow> s = 1)"
proof -
  have w: "w = fl (inHi - inLo)"
    using assms(1) by (rule round64_Fin_eq)
  have low: "fl (x - inLo) \<le> 0" if "x \<le> inLo"
    using fl_mono [of "x - inLo" 0] that by (simp add: fl_0)
  have high: "w \<le> fl (x - inLo)" if "inHi \<le> x"
    unfolding w using that by (intro fl_mono) simp
  have quot: "\<exists>s. Math_min (Math_max (round64 (a / w)) (Fin 0)) (Fin 1) = Fin s \<and>
             0 \<le> s \<and> s \<le> 1 \<and> (a \<le> 0 \<longrightarrow> s = 0) \<and> (w \<le> a \<longrightarrow> s = 1)" for a
  proof -
    have l: "fl (a / w) \<le> 0" if "a \<le> 0"
      using fl_mono [of "a / w" 0] that assms(2) by (simp add: divide_le_0_iff fl_0)
    have h: "1 \<le> fl (a / w)" if "w \<le> a"
      using fl_mono [of 1 "a / w"] that assms(2) by (simp add: le_divide_eq fl_1)
    show ?thesis
    proof (cases "a / w" rule: round64_cases)
      case fin
      then show ?thesis
        using l h by (auto simp add: min_def max_def)
    next
      case pinf
      then show ?thesis
        using l by auto
    next
      case ninf
      then show ?thesis
        using h by auto
    qed
  qed
  show ?thesis
  proof (cases "x - inLo" rule: round64_cases)
    case fin
    then show ?thesis
      using quot [of "fl (x - inLo)"] low high assms(2) by (auto simp add: minus_number_def)
  next
    case pinf
    then show ?thesis
      using low assms(2) by (auto simp add: minus_number_def)
  next
    case ninf
    then show ?thesis
      using high assms(2) by (auto simp add: minus_number_def)
  qed
qed

text \<open>The output stays between the output bounds when the lower one is a binary64 number
  and the rounded sum of the lower bound and the rounded span gives back the upper one.\<close>

lemma output64:
  assumes "round64 (outHi - outLo) = Fin c" and "round64 outLo = Fin outLo"
    and "round64 (outLo + c) = Fin outHi" and "0 \<le> s" and "s \<le> 1"
  shows "\<exists>v. rnd (Fin outLo + rnd (Fin s * rnd (Fin outHi - Fin outLo))) = Fin v \<and>
             min outLo outHi \<le> v \<and> v \<le> max outLo outHi \<and>
             (s = 0 \<longrightarrow> v = outLo) \<and> (s = 1 \<longrightarrow> v = outHi)"
proof -
  have c: "round64 c = Fin c"
    using assms(1) by (rule round64_Fin_eq)
  have "min 0 c \<le> s * c" "s * c \<le> max 0 c"
    using assms(4,5)
    by (auto simp add: min_def max_def mult_le_0_iff zero_le_mult_iff mult_left_le_one_le
        mult_le_cancel_right1 mult_le_cancel_right2)
  then obtain d where d: "round64 (s * c) = Fin d" "min 0 c \<le> d" "d \<le> max 0 c"
    using round64_between [of 0 0 c c "s * c"] c round64_0 by auto
  have "min outLo (outLo + c) \<le> outLo + d" "outLo + d \<le> max outLo (outLo + c)"
    using d(2,3) by (auto simp add: min_def max_def split: if_splits)
  then obtain v where v: "round64 (outLo + d) = Fin v" "min outLo outHi \<le> v" "v \<le> max outLo outHi"
    using round64_between [OF assms(2,3), of "outLo + d"] by auto
  have z: "v = outLo" if "s = 0"
    using that d(1) v(1) assms(2) by (simp add: round64_0)
  have o: "v = outHi" if "s = 1"
    using that d(1) v(1) assms(3) c by simp
  show ?thesis
    using v z o by (simp add: minus_number_def assms(1) d(1))
qed

lemma fastInterpolate64_props:
  assumes "round64 (inHi - inLo) = Fin w" and "0 < w"
    and "round64 (outHi - outLo) = Fin c" and "round64 outLo = Fin outLo"
    and "round64 (outLo + c) = Fin outHi"
  shows "\<exists>v. fastInterpolate64 (Fin x) (Fin inLo, Fin inHi) (Fin outLo, Fin outHi) = Fin v \<and>
             min outLo outHi \<le> v \<and> v \<le> max outLo outHi \<and>
             (x \<le> inLo \<longrightarrow> v = outLo) \<and> (inHi \<le> x \<longrightarrow> v = outHi)"
proof -
  obtain s where s: "Math_min (Math_max (rnd (rnd (Fin x - Fin inLo) / Fin w)) (Fin 0)) (Fin 1) = Fin s"
    "0 \<le> s" "s \<le> 1" "x \<le> inLo \<longrightarrow> s = 0" "inHi \<le> x \<longrightarrow> s = 1"
    using position64 [OF assms(1,2), of x] by blast
  obtain v where v: "rnd (Fin outLo + rnd (Fin s * rnd (Fin outHi - Fin outLo))) = Fin v"
    "min outLo outHi \<le> v" "v \<le> max outLo outHi" "s = 0 \<longrightarrow> v = outLo" "s = 1 \<longrightarrow> v = outHi"
    using output64 [OF assms(3,4,5) s(2,3)] by blast
  have "rnd (Fin inHi - Fin inLo) = Fin w"
    using assms(1) by (simp add: minus_number_def)
  then have "fastInterpolate64 (Fin x) (Fin inLo, Fin inHi) (Fin outLo, Fin outHi) = Fin v"
    by (simp add: fastInterpolate64_def s(1) v(1))
  then show ?thesis
    using v(2,3,4,5) s(4,5) by blast
qed



lemma fastInterpolate64_hover_decay:
  "\<exists>v. fastInterpolate64 (Fin x) (round64 0.8, Fin 1) (Fin 1, round64 0.7) = Fin v \<and>
       3152519739159347 / 2 ^ 52 \<le> v \<and> v \<le> 1 \<and>
       (x \<le> 3602879701896397 / 2 ^ 52 \<longrightarrow> v = 1) \<and>
       (1 \<le> x \<longrightarrow> v = 3152519739159347 / 2 ^ 52)"
  unfolding lit_08 lit_07
  using fastInterpolate64_props [of 1 "3602879701896397 / 2 ^ 52"
      "900719925474099 / 2 ^ 52" "3152519739159347 / 2 ^ 52" 1
      "- (1351079888211149 / 2 ^ 52)" x] width_08_1 span_1_07 double_07
  by (simp add: round64_ints)

lemma fastInterpolate64_speed_ramp:
  "\<exists>v. fastInterpolate64 (Fin x) (Fin 0, Fin 1000) (round64 0.7, Fin 1.0) = Fin v \<and>
       3152519739159347 / 2 ^ 52 \<le> v \<and> v \<le> 1 \<and>
       (x \<le> 0 \<longrightarrow> v = 3152519739159347 / 2 ^ 52) \<and> (1000 \<le> x \<longrightarrow> v = 1)"
  unfolding lit_07
  using fastInterpolate64_props [of 1000 0 1000 1 "3152519739159347 / 2 ^ 52"
      "1351079888211149 / 2 ^ 52" x] span_07_1 double_07
  by (simp add: round64_ints)


section \<open>The rounded opacity\<close>










subsection \<open>A particle at the end of its descent\<close>












section \<open>Opacity\<close>

text \<open>In exact arithmetic the opacity is 0 before the delay and from the end of the
  descending window on.\<close>

lemma opacity_zero_outside_window_exact:
  assumes "positive_durations p" and "t < delay p \<or> trajectoryEnd p \<le> t"
  shows "opacity (style p t) = Fin 0"
proof -
  from assms(1) have pos: "ascendingDuration p \<noteq> 0" "descendingDuration p \<noteq> 0"
    "0 < descendingDuration p"
    by (simp_all add: positive_durations_def)
  from assms(2) show ?thesis
  proof
    assume "t < delay p"
    then have "ascendingPercent p t = Fin 0"
      using pos(1) by (simp add: ascendingPercent_before)
    then show ?thesis
      using opacity_Fin [OF _ descendingPercent_Fin [OF pos(2)], of t 0] by simp
  next
    assume "trajectoryEnd p \<le> t"
    then have "descendingPercent p t = Fin 1"
      using pos(3) by (rule descendingPercent_after [rotated])
    then show ?thesis
      using opacity_Fin [OF ascendingPercent_Fin [OF pos(1)], of t 1] by simp
  qed
qed




text \<open>
  C10. For every particle with positive phase durations and every non-negative time,
  the ascending and the descending opacity contributions each lie in [0, 1], the
  opacity is their product, and it lies in [0, 1].
\<close>

theorem opacity_in_unit_interval:
  assumes "positive_durations p" and "0 \<le> t"
  shows "Fin 0 \<le> ascendingOpacity p t \<and> ascendingOpacity p t \<le> Fin 1 \<and>
         Fin 0 \<le> descendingOpacity p t \<and> descendingOpacity p t \<le> Fin 1 \<and>
         opacity (style p t) = ascendingOpacity p t * descendingOpacity p t \<and>
         Fin 0 \<le> opacity (style p t) \<and> opacity (style p t) \<le> Fin 1"
proof -
  from assms(1) have pos: "ascendingDuration p \<noteq> 0" "descendingDuration p \<noteq> 0"
    by (simp_all add: positive_durations_def)
  obtain a d where a: "ascendingPercent p t = Fin a" and d: "descendingPercent p t = Fin d"
    using ascendingPercent_Fin [OF pos(1)] descendingPercent_Fin [OF pos(2)] by blast
  define u where "u = min (max ((a - 3 / 10) * 2) 0) 1"
  define v where "v = 1 - min (max ((d - 4 / 5) * 5) 0) 1"
  have u: "0 \<le> u" "u \<le> 1" and v: "0 \<le> v" "v \<le> 1"
    by (simp_all add: u_def v_def)
  have uv: "0 \<le> u * v" "u * v \<le> 1"
    using u v by (simp_all add: mult_le_one)
  have ao: "ascendingOpacity p t = Fin u"
    using ascendingOpacity_Fin [OF a] by (simp add: u_def)
  have do: "descendingOpacity p t = Fin v"
    using descendingOpacity_Fin [OF d] by (simp add: v_def)
  have op: "opacity (style p t) = Fin (u * v)"
    by (simp add: style_def ao do)
  show ?thesis
    using u v uv by (simp add: ao do op)
qed


theorem opacity_in_unit_interval_witness:
  "positive_durations particle_default \<and> (0::real) \<le> 250 \<and>
   Fin 0 \<le> opacity (style particle_default 250) \<and>
   opacity (style particle_default 250) \<le> Fin 1"
proof -
  have v: "positive_durations particle_default"
    by (simp add: positive_durations_def particle_default_def)
  have t: "(0::real) \<le> 250"
    by simp
  show ?thesis
    using v t opacity_in_unit_interval [OF v t] by blast
qed


section \<open>Interpolation\<close>

text \<open>In exact arithmetic the result of \<open>fastInterpolate\<close> lies between the two output
  bounds for every output range, and is an output bound at and beyond the input bounds.\<close>

lemma fastInterpolate_exact_bounded_saturating:
  assumes "inLo < inHi"
  shows "Fin (min outLo outHi) \<le> fastInterpolate (Fin x) (Fin inLo, Fin inHi) (Fin outLo, Fin outHi) \<and>
         fastInterpolate (Fin x) (Fin inLo, Fin inHi) (Fin outLo, Fin outHi) \<le> Fin (max outLo outHi) \<and>
         (x \<le> inLo \<longrightarrow>
            fastInterpolate (Fin x) (Fin inLo, Fin inHi) (Fin outLo, Fin outHi) = Fin outLo) \<and>
         (inHi \<le> x \<longrightarrow>
            fastInterpolate (Fin x) (Fin inLo, Fin inHi) (Fin outLo, Fin outHi) = Fin outHi)"
proof -
  define s where "s = min (max ((x - inLo) / (inHi - inLo)) 0) 1"
  have s: "0 \<le> s" "s \<le> 1" by (simp_all add: s_def)
  have eq: "fastInterpolate (Fin x) (Fin inLo, Fin inHi) (Fin outLo, Fin outHi)
              = Fin (outLo + s * (outHi - outLo))"
    using assms by (simp add: fastInterpolate_Fin s_def)
  have conv: "outLo + s * (outHi - outLo) = (1 - s) * outLo + s * outHi"
    by (simp add: algebra_simps)
  have lower: "min outLo outHi \<le> outLo + s * (outHi - outLo)"
  proof -
    have "(1 - s) * min outLo outHi \<le> (1 - s) * outLo" "s * min outLo outHi \<le> s * outHi"
      using s by (simp_all add: mult_left_mono)
    then have "(1 - s) * min outLo outHi + s * min outLo outHi \<le> (1 - s) * outLo + s * outHi"
      by (rule add_mono)
    then show ?thesis by (simp add: conv algebra_simps)
  qed
  have upper: "outLo + s * (outHi - outLo) \<le> max outLo outHi"
  proof -
    have "(1 - s) * outLo \<le> (1 - s) * max outLo outHi" "s * outHi \<le> s * max outLo outHi"
      using s by (simp_all add: mult_left_mono)
    then have "(1 - s) * outLo + s * outHi \<le> (1 - s) * max outLo outHi + s * max outLo outHi"
      by (rule add_mono)
    then show ?thesis by (simp add: conv algebra_simps)
  qed
  have low: "s = 0" if "x \<le> inLo"
  proof -
    have "(x - inLo) / (inHi - inLo) \<le> 0"
      using that assms by (simp add: divide_le_0_iff)
    then show ?thesis by (simp add: s_def)
  qed
  have high: "s = 1" if "inHi \<le> x"
  proof -
    have "1 \<le> (x - inLo) / (inHi - inLo)"
      using that assms by (simp add: le_divide_eq)
    then show ?thesis by (simp add: s_def)
  qed
  show ?thesis
    using lower upper low high by (auto simp add: eq)
qed

text \<open>
  C9, as the code has it. For every real input and every input range whose rounded
  width \<open>inHi - inLo\<close> is a positive number, the computed result of \<open>fastInterpolate\<close> (the
  specification's \<open>clampedLerp\<close>) lies between the two output bounds, also for an input
  outside the input range, and is \<open>outLo\<close> for an input at or below \<open>inLo\<close> and \<open>outHi\<close> for
  one at or above \<open>inHi\<close>, provided that \<open>outLo\<close> is a binary64 number and that the rounded
  sum of \<open>outLo\<close> and the rounded \<open>outHi - outLo\<close> is \<open>outHi\<close> again. The four calls in the
  source are of this kind.
\<close>

theorem fastInterpolate64_bounded_saturating:
  assumes "rnd (Fin inHi - Fin inLo) = Fin w" and "0 < w"
    and "rnd (Fin outLo) = Fin outLo"
    and "rnd (Fin outLo + rnd (Fin outHi - Fin outLo)) = Fin outHi"
  shows "Fin (min outLo outHi) \<le> fastInterpolate64 (Fin x) (Fin inLo, Fin inHi) (Fin outLo, Fin outHi) \<and>
         fastInterpolate64 (Fin x) (Fin inLo, Fin inHi) (Fin outLo, Fin outHi) \<le> Fin (max outLo outHi) \<and>
         (x \<le> inLo \<longrightarrow>
            fastInterpolate64 (Fin x) (Fin inLo, Fin inHi) (Fin outLo, Fin outHi) = Fin outLo) \<and>
         (inHi \<le> x \<longrightarrow>
            fastInterpolate64 (Fin x) (Fin inLo, Fin inHi) (Fin outLo, Fin outHi) = Fin outHi)"
proof -
  have w: "round64 (inHi - inLo) = Fin w"
    using assms(1) by (simp add: minus_number_def)
  have lo: "round64 outLo = Fin outLo"
    using assms(3) by simp
  obtain c where c: "round64 (outHi - outLo) = Fin c"
    using assms(4) by (cases "outHi - outLo" rule: round64_cases) (simp_all add: minus_number_def)
  have hi: "round64 (outLo + c) = Fin outHi"
    using assms(4) by (simp add: minus_number_def c)
  show ?thesis
    using fastInterpolate64_props [OF w assms(2) c lo hi, of x] by auto
qed

text \<open>The four calls of the source, each at an input below and at one above its input
  range; the fractions are the binary64 numbers written \<open>0.3\<close>, \<open>0.8\<close> and \<open>0.7\<close>.\<close>

theorem fastInterpolate64_bounded_saturating_witness:
  "rnd (Fin (3602879701896397 / 2 ^ 52) - Fin (5404319552844595 / 2 ^ 54)) = Fin (1 / 2) \<and>
   (0::real) < 1 / 2 \<and>
   rnd (Fin 0) = Fin 0 \<and>
   rnd (Fin 0 + rnd (Fin 1 - Fin 0)) = Fin 1 \<and>
   fastInterpolate64 (Fin 0)
     (Fin (5404319552844595 / 2 ^ 54), Fin (3602879701896397 / 2 ^ 52)) (Fin 0, Fin 1) = Fin 0 \<and>
   fastInterpolate64 (Fin 1)
     (Fin (5404319552844595 / 2 ^ 54), Fin (3602879701896397 / 2 ^ 52)) (Fin 0, Fin 1) = Fin 1 \<and>
   rnd (Fin 1 - Fin (3602879701896397 / 2 ^ 52)) = Fin (900719925474099 / 2 ^ 52) \<and>
   (0::real) < 900719925474099 / 2 ^ 52 \<and>
   rnd (Fin 1) = Fin 1 \<and>
   rnd (Fin 1 + rnd (Fin (3152519739159347 / 2 ^ 52) - Fin 1)) = Fin (3152519739159347 / 2 ^ 52) \<and>
   fastInterpolate64 (Fin 0)
     (Fin (3602879701896397 / 2 ^ 52), Fin 1) (Fin 1, Fin (3152519739159347 / 2 ^ 52)) = Fin 1 \<and>
   fastInterpolate64 (Fin 1)
     (Fin (3602879701896397 / 2 ^ 52), Fin 1) (Fin 1, Fin (3152519739159347 / 2 ^ 52)) = Fin (3152519739159347 / 2 ^ 52) \<and>
   rnd (Fin 1000 - Fin 0) = Fin 1000 \<and>
   (0::real) < 1000 \<and>
   rnd (Fin (3152519739159347 / 2 ^ 52)) = Fin (3152519739159347 / 2 ^ 52) \<and>
   rnd (Fin (3152519739159347 / 2 ^ 52) + rnd (Fin 1 - Fin (3152519739159347 / 2 ^ 52))) = Fin 1 \<and>
   fastInterpolate64 (Fin 0)
     (Fin 0, Fin 1000) (Fin (3152519739159347 / 2 ^ 52), Fin 1) = Fin (3152519739159347 / 2 ^ 52) \<and>
   fastInterpolate64 (Fin 1000)
     (Fin 0, Fin 1000) (Fin (3152519739159347 / 2 ^ 52), Fin 1) = Fin 1 \<and>
   rnd (Fin 1 - Fin (3602879701896397 / 2 ^ 52)) = Fin (900719925474099 / 2 ^ 52) \<and>
   (0::real) < 900719925474099 / 2 ^ 52 \<and>
   rnd (Fin 1) = Fin 1 \<and>
   rnd (Fin 1 + rnd (Fin 0 - Fin 1)) = Fin 0 \<and>
   fastInterpolate64 (Fin 0) (Fin (3602879701896397 / 2 ^ 52), Fin 1) (Fin 1, Fin 0) = Fin 1 \<and>
   fastInterpolate64 (Fin 1) (Fin (3602879701896397 / 2 ^ 52), Fin 1) (Fin 1, Fin 0) = Fin 0"
proof -
  have a1: "rnd (Fin (3602879701896397 / 2 ^ 52) - Fin (5404319552844595 / 2 ^ 54)) = Fin (1 / 2)"
    by (simp add: minus_number_def round64_ints width_03_08 [simplified])
  have a2: "(0::real) < 1 / 2"
    by simp
  have a3: "rnd (Fin 0) = Fin 0"
    by (simp add: round64_ints width_03_08 [simplified])
  have a4: "rnd (Fin 0 + rnd (Fin 1 - Fin 0)) = Fin 1"
    by (simp add: minus_number_def round64_ints width_03_08 [simplified])
  have b1: "rnd (Fin 1 - Fin (3602879701896397 / 2 ^ 52)) = Fin (900719925474099 / 2 ^ 52)"
    by (simp add: minus_number_def round64_ints width_08_1 [simplified] span_1_07 [simplified] double_07 [simplified])
  have b2: "(0::real) < 900719925474099 / 2 ^ 52"
    by simp
  have b3: "rnd (Fin 1) = Fin 1"
    by (simp add: round64_ints width_08_1 [simplified] span_1_07 [simplified] double_07 [simplified])
  have b4: "rnd (Fin 1 + rnd (Fin (3152519739159347 / 2 ^ 52) - Fin 1)) = Fin (3152519739159347 / 2 ^ 52)"
    by (simp add: minus_number_def round64_ints width_08_1 [simplified] span_1_07 [simplified] double_07 [simplified])
  have c1: "rnd (Fin 1000 - Fin 0) = Fin 1000"
    by (simp add: minus_number_def round64_ints span_07_1 [simplified] double_07 [simplified])
  have c2: "(0::real) < 1000"
    by simp
  have c3: "rnd (Fin (3152519739159347 / 2 ^ 52)) = Fin (3152519739159347 / 2 ^ 52)"
    by (simp add: round64_ints span_07_1 [simplified] double_07 [simplified])
  have c4: "rnd (Fin (3152519739159347 / 2 ^ 52) + rnd (Fin 1 - Fin (3152519739159347 / 2 ^ 52))) = Fin 1"
    by (simp add: minus_number_def round64_ints span_07_1 [simplified] double_07 [simplified])
  have d1: "rnd (Fin 1 - Fin (3602879701896397 / 2 ^ 52)) = Fin (900719925474099 / 2 ^ 52)"
    by (simp add: minus_number_def round64_ints width_08_1 [simplified])
  have d2: "(0::real) < 900719925474099 / 2 ^ 52"
    by simp
  have d3: "rnd (Fin 1) = Fin 1"
    by (simp add: round64_ints width_08_1 [simplified])
  have d4: "rnd (Fin 1 + rnd (Fin 0 - Fin 1)) = Fin 0"
    by (simp add: minus_number_def round64_ints width_08_1 [simplified])
  have a: "rnd (Fin (3602879701896397 / 2 ^ 52) - Fin (5404319552844595 / 2 ^ 54)) = Fin (1 / 2) \<and>
     (0::real) < 1 / 2 \<and>
     rnd (Fin 0) = Fin 0 \<and>
     rnd (Fin 0 + rnd (Fin 1 - Fin 0)) = Fin 1 \<and>
     fastInterpolate64 (Fin 0)
       (Fin (5404319552844595 / 2 ^ 54), Fin (3602879701896397 / 2 ^ 52)) (Fin 0, Fin 1) = Fin 0 \<and>
     fastInterpolate64 (Fin 1)
       (Fin (5404319552844595 / 2 ^ 54), Fin (3602879701896397 / 2 ^ 52)) (Fin 0, Fin 1) = Fin 1"
    using a1 a3 a4
      fastInterpolate64_bounded_saturating [OF a1 a2 a3 a4, of 0]
      fastInterpolate64_bounded_saturating [OF a1 a2 a3 a4, of 1]
    by simp
  have b: "rnd (Fin 1 - Fin (3602879701896397 / 2 ^ 52)) = Fin (900719925474099 / 2 ^ 52) \<and>
     (0::real) < 900719925474099 / 2 ^ 52 \<and>
     rnd (Fin 1) = Fin 1 \<and>
     rnd (Fin 1 + rnd (Fin (3152519739159347 / 2 ^ 52) - Fin 1)) = Fin (3152519739159347 / 2 ^ 52) \<and>
     fastInterpolate64 (Fin 0)
       (Fin (3602879701896397 / 2 ^ 52), Fin 1) (Fin 1, Fin (3152519739159347 / 2 ^ 52)) = Fin 1 \<and>
     fastInterpolate64 (Fin 1)
       (Fin (3602879701896397 / 2 ^ 52), Fin 1) (Fin 1, Fin (3152519739159347 / 2 ^ 52)) = Fin (3152519739159347 / 2 ^ 52)"
    using b1 b3 b4
      fastInterpolate64_bounded_saturating [OF b1 b2 b3 b4, of 0]
      fastInterpolate64_bounded_saturating [OF b1 b2 b3 b4, of 1]
    by simp
  have c: "rnd (Fin 1000 - Fin 0) = Fin 1000 \<and>
     (0::real) < 1000 \<and>
     rnd (Fin (3152519739159347 / 2 ^ 52)) = Fin (3152519739159347 / 2 ^ 52) \<and>
     rnd (Fin (3152519739159347 / 2 ^ 52) + rnd (Fin 1 - Fin (3152519739159347 / 2 ^ 52))) = Fin 1 \<and>
     fastInterpolate64 (Fin 0)
       (Fin 0, Fin 1000) (Fin (3152519739159347 / 2 ^ 52), Fin 1) = Fin (3152519739159347 / 2 ^ 52) \<and>
     fastInterpolate64 (Fin 1000)
       (Fin 0, Fin 1000) (Fin (3152519739159347 / 2 ^ 52), Fin 1) = Fin 1"
    using c1 c3 c4
      fastInterpolate64_bounded_saturating [OF c1 c2 c3 c4, of 0]
      fastInterpolate64_bounded_saturating [OF c1 c2 c3 c4, of 1000]
    by simp
  have d: "rnd (Fin 1 - Fin (3602879701896397 / 2 ^ 52)) = Fin (900719925474099 / 2 ^ 52) \<and>
     (0::real) < 900719925474099 / 2 ^ 52 \<and>
     rnd (Fin 1) = Fin 1 \<and>
     rnd (Fin 1 + rnd (Fin 0 - Fin 1)) = Fin 0 \<and>
     fastInterpolate64 (Fin 0)
       (Fin (3602879701896397 / 2 ^ 52), Fin 1) (Fin 1, Fin 0) = Fin 1 \<and>
     fastInterpolate64 (Fin 1) (Fin (3602879701896397 / 2 ^ 52), Fin 1) (Fin 1, Fin 0) = Fin 0"
    using d1 d3 d4
      fastInterpolate64_bounded_saturating [OF d1 d2 d3 d4, of 0]
      fastInterpolate64_bounded_saturating [OF d1 d2 d3 d4, of 1]
    by simp
  show ?thesis
    using a b c d by blast
qed

text \<open>For the output range from \<open>0.3\<close> to \<open>0.9\<close> the rounded sum is the binary64 number
  above \<open>0.9\<close>: a saturated input gives a result outside the output range.\<close>

theorem fastInterpolate64_overshoot:
  "(0::real) < 1 \<and> (1::real) \<le> 2 \<and>
   round64 0.9 = Fin (8106479329266893 / 2 ^ 53) \<and>
   fastInterpolate64 (Fin 2) (Fin 0, Fin 1) (round64 0.3, round64 0.9)
     = Fin (8106479329266894 / 2 ^ 53) \<and>
   \<not> fastInterpolate64 (Fin 2) (Fin 0, Fin 1) (round64 0.3, round64 0.9) \<le> round64 0.9"
proof -
  have two: "round64 2 = Fin 2"
    using round64_exact [of 2 0 2] by simp
  have c: "round64 (8106479329266893 / 2 ^ 53 - 5404319552844595 / 2 ^ 54)
             = Fin (1351079888211149 / 2 ^ 51)"
    using round64_tie [of "- 53" "8106479329266893 / 2 ^ 53 - 5404319552844595 / 2 ^ 54"
        5404319552844596]
    by simp
  have m: "round64 (1351079888211149 / 2 ^ 51) = Fin (1351079888211149 / 2 ^ 51)"
    using round64_exact [of 1351079888211149 "- 51" "1351079888211149 / 2 ^ 51"] by simp
  have r: "round64 (5404319552844595 / 2 ^ 54 + 1351079888211149 / 2 ^ 51)
             = Fin (8106479329266894 / 2 ^ 53)"
    using round64_tie [of "- 53" "5404319552844595 / 2 ^ 54 + 1351079888211149 / 2 ^ 51"
        8106479329266894]
    by simp
  have f: "fastInterpolate64 (Fin 2) (Fin 0, Fin 1) (round64 0.3, round64 0.9)
             = Fin (8106479329266894 / 2 ^ 53)"
    unfolding fastInterpolate64_def lit_03 lit_09
    by (simp add: minus_number_def Let_def round64_ints two c [simplified] m [simplified]
        r [simplified])
  have ne: "\<not> Fin (8106479329266894 / 2 ^ 53) \<le> Fin (8106479329266893 / 2 ^ 53)"
    by simp
  have g: "\<not> fastInterpolate64 (Fin 2) (Fin 0, Fin 1) (round64 0.3, round64 0.9)
             \<le> round64 0.9"
    by (subst f, subst lit_09) (rule ne)
  show ?thesis
    by (intro conjI) (simp, simp, rule lit_09, rule f, rule g)
qed


section \<open>Rotation\<close>

text \<open>
  C8. At every time the evaluated rotation is the time elapsed since the start of the
  hovering window, \<open>max (t - delay - ascendingDuration) 0\<close>, in seconds, times
  \<open>rotationVelocity\<close> times \<open>pi / 180\<close>. The hovering duration does not occur in it: the
  angle grows at a constant rate through the hovering and the descending phase.
\<close>

theorem rotation_constant_velocity:
  "rotate2d (transform (style p t)) =
     Fin (max (t - delay p - ascendingDuration p) 0 / 1000 * rotationVelocity p * pi / 180) \<and>
   (delay p + ascendingDuration p \<le> t \<longrightarrow>
      rotate2d (transform (style p t)) =
        Fin ((t - delay p - ascendingDuration p) / 1000 * rotationVelocity p * pi / 180))"
proof -
  have r: "rotate2d (transform (style p t)) = rotateAngle p t"
    by (simp add: style_def)
  have "max (t - delay p - ascendingDuration p) 0 = t - delay p - ascendingDuration p"
    if "delay p + ascendingDuration p \<le> t"
    using that by simp
  then show ?thesis
    by (simp add: r rotateAngle_Fin)
qed

text \<open>In the middle of its descending window (from 700 to 2700 ms) the example particle,
  which turns at 180 degrees per second, has turned for 1.2 seconds.\<close>

theorem rotation_constant_velocity_witness:
  "delay particle_default + ascendingDuration particle_default \<le> 1700 \<and>
   rotate2d (transform (style particle_default 1700)) = Fin (6 / 5 * pi)"
  using rotation_constant_velocity [of particle_default 1700]
  by (simp add: particle_default_def)



section \<open>After the descent\<close>






section \<open>The end-to-end scenario\<close>

text \<open>
  C3, as the code has it. For a particle with no delay, durations 500, 200 and 2000,
  start at the origin, horizontal offset 100 and vertical target -50, at time 250 the
  ascending part of the horizontal translation is 50 and the opacity is 0.4. The
  horizontal translation itself is 50 plus ten times the sine of the particle's
  \<open>descendingRandomFactor\<close>: the descending contribution is added at every time.
\<close>

theorem scenario_midpoint_of_ascend:
  assumes "delay p = 0" and "ascendingDuration p = 500" and "hoveringDuration p = 200"
    and "descendingDuration p = 2000" and "startX p = 0" and "startY p = 0"
    and "ascendingXOffset p = 100" and "ascendingYTarget p = - 50"
  shows "ascendingX p 250 = Fin 50 \<and>
         translateX (transform (style p 250)) = Fin (50 + sin (descendingRandomFactor p) * 10) \<and>
         opacity (style p 250) = Fin (2 / 5)"
proof -
  have ap: "ascendingPercent p 250 = Fin (1 / 2)"
    using assms by (simp add: ascendingPercent_Fin)
  have dp: "descendingPercent p 250 = Fin 0"
    using assms by (simp add: descendingPercent_Fin)
  have at: "ascendingT p 250 = Fin (1 / 2)"
    using ascendingT_Fin [OF ap] by simp
  have ax: "ascendingX p 250 = Fin 50"
    using ascendingX_Fin [OF at] assms by simp
  have dx: "descendingX p 250 = Fin (sin (descendingRandomFactor p) * 10)"
    using assms by (simp add: descendingX_Fin)
  have tx: "translateX (transform (style p 250)) = Fin (50 + sin (descendingRandomFactor p) * 10)"
    by (simp add: style_def ax dx)
  have op: "opacity (style p 250) = Fin (2 / 5)"
    using opacity_Fin [OF ap dp] by simp
  show ?thesis
    using ax tx op by simp
qed

theorem scenario_midpoint_of_ascend_witness:
  "delay particle_scenario = 0 \<and> ascendingDuration particle_scenario = 500 \<and>
   hoveringDuration particle_scenario = 200 \<and> descendingDuration particle_scenario = 2000 \<and>
   startX particle_scenario = 0 \<and> startY particle_scenario = 0 \<and>
   ascendingXOffset particle_scenario = 100 \<and> ascendingYTarget particle_scenario = - 50 \<and>
   translateX (transform (style particle_scenario 250)) = Fin (50 + sin 1 * 10) \<and>
   opacity (style particle_scenario 250) = Fin (2 / 5)"
  using scenario_midpoint_of_ascend [of particle_scenario]
  by (simp add: particle_scenario_def particle_default_def)


text \<open>With \<open>descendingRandomFactor = 1\<close>, a value the generator can draw, the horizontal
  translation of the scenario's particle at time 250 is not 50.\<close>

theorem scenario_translateX_not_50:
  "delay particle_scenario = 0 \<and> ascendingDuration particle_scenario = 500 \<and>
   hoveringDuration particle_scenario = 200 \<and> descendingDuration particle_scenario = 2000 \<and>
   startX particle_scenario = 0 \<and> startY particle_scenario = 0 \<and>
   ascendingXOffset particle_scenario = 100 \<and> ascendingYTarget particle_scenario = - 50 \<and>
   translateX (transform (style particle_scenario 250)) \<noteq> Fin 50"
proof -
  have "0 < sin (1::real)"
    by (rule sin_gt_zero_02) simp_all
  moreover have "translateX (transform (style particle_scenario 250)) = Fin (50 + sin 1 * 10)"
    by (simp add: style_def ascendingX_def ascendingT_def ascendingPercent_Fin
        easeInOutCubic_Fin descendingX_Fin particle_scenario_def particle_default_def)
  ultimately show ?thesis
    by (simp add: particle_scenario_def particle_default_def)
qed



section \<open>Phases of duration 0\<close>

lemma pose_finite:
  assumes "positive_durations p"
  shows "is_finite (translateX (transform (style p t))) \<and>
         is_finite (translateY (transform (style p t))) \<and>
         is_finite (rotate2d (transform (style p t))) \<and>
         is_finite (scale2d (transform (style p t))) \<and>
         is_finite (opacity (style p t))"
proof -
  from assms have pos: "ascendingDuration p \<noteq> 0" "hoveringDuration p \<noteq> 0"
    "descendingDuration p \<noteq> 0"
    by (simp_all add: positive_durations_def)
  note ap = ascendingPercent_Fin [OF pos(1), of t]
  note hp = hoveringPercent_Fin [OF pos(2), of t]
  note dp = descendingPercent_Fin [OF pos(3), of t]
  note at = ascendingT_Fin [OF ap]
  note ht = hoveringT_Fin [OF hp]
  have "is_finite (translateX (transform (style p t)))"
    by (simp add: style_def ascendingX_Fin [OF at] descendingX_Fin is_finite_def)
  moreover have "is_finite (translateY (transform (style p t)))"
    by (simp add: style_def ascendingY_Fin [OF at] hoveringY_Fin [OF ht] descendingY_Fin
        is_finite_def)
  moreover have "is_finite (rotate2d (transform (style p t)))"
    by (simp add: style_def rotateAngle_Fin is_finite_def)
  moreover have "is_finite (scale2d (transform (style p t)))"
    by (simp add: style_def is_finite_def)
  moreover have "is_finite (opacity (style p t))"
    by (simp add: opacity_Fin [OF ap dp] is_finite_def)
  ultimately show ?thesis by simp
qed


text \<open>
  C5, as the code has it. When the three phase durations are positive, every field of
  the pose is finite. When a phase has duration 0, its completion fraction is 1 at the
  times strictly after the start of the phase, where the quotient is \<open>+Infinity\<close> and
  \<open>Math.min\<close> brings it to 1; at the start of the phase and before it the quotient is
  \<open>0/0\<close> and the fraction is \<open>NaN\<close>.
\<close>

theorem degenerate_duration:
  "(positive_durations p \<longrightarrow>
      is_finite (translateX (transform (style p t))) \<and>
      is_finite (translateY (transform (style p t))) \<and>
      is_finite (rotate2d (transform (style p t))) \<and>
      is_finite (scale2d (transform (style p t))) \<and>
      is_finite (opacity (style p t))) \<and>
   (ascendingDuration p = 0 \<longrightarrow>
      ascendingPercent p t = (if delay p < t then Fin 1 else NaN)) \<and>
   (hoveringDuration p = 0 \<longrightarrow>
      hoveringPercent p t = (if delay p + ascendingDuration p < t then Fin 1 else NaN)) \<and>
   (descendingDuration p = 0 \<longrightarrow>
      descendingPercent p t =
        (if delay p + ascendingDuration p + hoveringDuration p < t then Fin 1 else NaN))"
proof -
  have a: "ascendingPercent p t = (if delay p < t then Fin 1 else NaN)"
    if "ascendingDuration p = 0"
    using that by (simp add: ascendingPercent_def ascendingTime_Fin signed_inf_def max_def)
  have h: "hoveringPercent p t = (if delay p + ascendingDuration p < t then Fin 1 else NaN)"
    if "hoveringDuration p = 0"
    using that by (simp add: hoveringPercent_def hoveringTime_Fin signed_inf_def max_def
        less_diff_eq)
  have d: "descendingPercent p t =
        (if delay p + ascendingDuration p + hoveringDuration p < t then Fin 1 else NaN)"
    if "descendingDuration p = 0"
    using that by (simp add: descendingPercent_def descendingTime_Fin signed_inf_def max_def
        less_diff_eq)
  show ?thesis
    using pose_finite [of p t] a h d by blast
qed

theorem degenerate_duration_witness:
  "positive_durations particle_default \<and>
   is_finite (translateX (transform (style particle_default 250))) \<and>
   is_finite (translateY (transform (style particle_default 250))) \<and>
   is_finite (opacity (style particle_default 250)) \<and>
   ascendingDuration (particle_default\<lparr>ascendingDuration := 0\<rparr>) = 0 \<and>
   ascendingPercent (particle_default\<lparr>ascendingDuration := 0\<rparr>) 0 = NaN \<and>
   hoveringDuration particle_instant_hover = 0 \<and>
   hoveringPercent particle_instant_hover 250 = NaN \<and>
   hoveringPercent particle_instant_hover 501 = Fin 1 \<and>
   descendingDuration (particle_default\<lparr>descendingDuration := 0\<rparr>) = 0 \<and>
   descendingPercent (particle_default\<lparr>descendingDuration := 0\<rparr>) 700 = NaN"
proof -
  have v: "positive_durations particle_default"
    by (simp add: positive_durations_def particle_default_def)
  show ?thesis
    using v degenerate_duration [of particle_default 250]
      degenerate_duration [of "particle_default\<lparr>ascendingDuration := 0\<rparr>" 0]
      degenerate_duration [of particle_instant_hover 250]
      degenerate_duration [of particle_instant_hover 501]
      degenerate_duration [of "particle_default\<lparr>descendingDuration := 0\<rparr>" 700]
    by (simp add: particle_instant_hover_def particle_default_def)
qed


text \<open>A hovering phase of duration 0 makes the vertical translation \<open>NaN\<close> in the middle
  of the ascent.\<close>

theorem zero_hover_duration_gives_NaN:
  "hoveringDuration particle_instant_hover = 0 \<and>
   hoveringPercent particle_instant_hover 250 = NaN \<and>
   translateY (transform (style particle_instant_hover 250)) = NaN"
proof -
  have hp: "hoveringPercent particle_instant_hover 250 = NaN"
    by (simp add: hoveringPercent_def hoveringTime_Fin signed_inf_def
        particle_instant_hover_def particle_default_def)
  have "hoveringT particle_instant_hover 250 = NaN"
    by (simp add: hoveringT_def hp easeOutQuart_def minus_number_def)
  then have "hoveringY particle_instant_hover 250 = NaN"
    by (simp add: hoveringY_def)
  then have "translateY (transform (style particle_instant_hover 250)) = NaN"
    by (simp add: style_def descendingY_Fin ascendingY_def ascendingT_def ascendingPercent_Fin
        easeInOutCubic_Fin minus_number_def particle_instant_hover_def particle_default_def)
  then show ?thesis
    using hp by (simp add: particle_instant_hover_def particle_default_def)
qed



section \<open>Generated particles and the loop period\<close>

lemma randomInRange_bounds:
  assumes "random_in_bounds L" and "fst r \<le> snd r"
  shows "fst r \<le> randomInRange L k r" and "randomInRange L k r \<le> snd r"
proof -
  from assms(1) have "min (fst r) (snd r) \<le> random_l L k (fst r) (snd r)"
    and "random_l L k (fst r) (snd r) \<le> max (fst r) (snd r)"
    by (simp_all add: random_in_bounds_def)
  with assms(2) show "fst r \<le> randomInRange L k r" and "randomInRange L k r \<le> snd r"
    by (simp_all add: randomInRange_def)
qed


text \<open>
  C6, as the code has it. For a configuration with ordered ranges, the three phase
  durations of a generated particle add up to at most \<open>totalDuration\<close>. The delay is not
  part of \<open>totalDuration\<close>: the trajectory, delay included, ends within \<open>totalDuration\<close>
  when the upper bound of the delay range is at most 0, as in the default configuration.
\<close>

theorem durations_within_loop:
  assumes "random_in_bounds L" and "ranges_ordered cfg"
  shows "\<exists>p. getAnimationPropsForConfetti L w h cfg = Inr p \<and>
             ascendingDuration p + hoveringDuration p + descendingDuration p
               \<le> totalDuration cfg \<and>
             (snd (delayRange cfg) \<le> 0 \<longrightarrow> trajectoryEnd p \<le> totalDuration cfg)"
proof -
  from assms(2) have ord: "fst (delayRange cfg) \<le> snd (delayRange cfg)"
    "fst (ascendingDurationRange cfg) \<le> snd (ascendingDurationRange cfg)"
    "fst (hoveringDurationRange cfg) \<le> snd (hoveringDurationRange cfg)"
    "fst (descendingDurationRange cfg) \<le> snd (descendingDurationRange cfg)"
    by (simp_all add: ranges_ordered_def)
  have d: "randomInRange L 0 (delayRange cfg) \<le> snd (delayRange cfg)"
    using assms(1) ord(1) by (rule randomInRange_bounds)
  have a: "randomInRange L 3 (ascendingDurationRange cfg) \<le> snd (ascendingDurationRange cfg)"
    using assms(1) ord(2) by (rule randomInRange_bounds)
  have h: "randomInRange L 6 (hoveringDurationRange cfg) \<le> snd (hoveringDurationRange cfg)"
    using assms(1) ord(3) by (rule randomInRange_bounds)
  have e: "randomInRange L 8 (descendingDurationRange cfg) \<le> snd (descendingDurationRange cfg)"
    using assms(1) ord(4) by (rule randomInRange_bounds)
  show ?thesis
    using d a h e
    by (simp add: getAnimationPropsForConfetti_def totalDuration_def trajectoryEnd_def)
qed

theorem durations_within_loop_witness:
  "random_in_bounds lodash_high \<and> ranges_ordered defaultConfig \<and>
   snd (delayRange defaultConfig) \<le> 0 \<and>
   (\<exists>p. getAnimationPropsForConfetti lodash_high 400 800 defaultConfig = Inr p \<and>
        trajectoryEnd p \<le> totalDuration defaultConfig)"
proof -
  have b: "random_in_bounds lodash_high"
    by (simp add: random_in_bounds_def lodash_high_def min_le_iff_disj)
  have r: "ranges_ordered defaultConfig"
    by (simp add: ranges_ordered_def defaultConfig_def)
  have z: "snd (delayRange defaultConfig) \<le> 0"
    by (simp add: defaultConfig_def)
  show ?thesis
    using b r z durations_within_loop [OF b r, of 400 800] by blast
qed


text \<open>With a delay range of 0 to 1000 ms and every draw at its upper bound, the
  trajectory ends at 7800 ms while the loop period is 6800 ms.\<close>

theorem delayed_particle_outlasts_loop:
  "random_in_bounds lodash_high \<and> ranges_ordered config_delayed \<and>
   totalDuration config_delayed = 6800 \<and>
   (case getAnimationPropsForConfetti lodash_high 400 800 config_delayed of
      Inl e \<Rightarrow> False
    | Inr p \<Rightarrow> trajectoryEnd p = 7800 \<and> totalDuration config_delayed < trajectoryEnd p)"
  by (simp add: random_in_bounds_def lodash_high_def min_le_iff_disj ranges_ordered_def config_delayed_def
      defaultConfig_def totalDuration_def getAnimationPropsForConfetti_def randomInRange_def
      trajectoryEnd_def)



section \<open>Generation and invalid configurations\<close>

text \<open>
  C4, as the code has it. Parameter generation checks nothing and never fails: for
  every configuration, also one with an inverted range or an empty palette, it returns
  the animation properties. The delay is what \<open>random\<close> returned for the two bounds as
  given, and \<open>sample\<close> on an empty palette gives \<open>undefined\<close>.
\<close>

theorem generation_never_fails:
  "getAnimationPropsForConfetti L w h cfg \<noteq> Inl InvalidConfig \<and>
   (\<exists>p. getAnimationPropsForConfetti L w h cfg = Inr p \<and>
        delay p = random_l L 0 (fst (delayRange cfg)) (snd (delayRange cfg)) \<and>
        color p = sample L 0 (colors cfg) \<and>
        imageSource p = sample L 1 (images cfg)) \<and>
   sample L k ([] :: string list) = None"
  by (simp add: getAnimationPropsForConfetti_def randomInRange_def sample_def)


text \<open>A configuration with the delay range \<open>[5, 1]\<close>, no colours and a count of 50
  generates a particle.\<close>

theorem invalid_config_generates:
  "snd (delayRange config_inverted) < fst (delayRange config_inverted) \<and>
   colors config_inverted = [] \<and> 0 < count config_inverted \<and>
   getAnimationPropsForConfetti lodash_low 400 800 config_inverted =
     Inr \<lparr>delay = 1, startX = 160, startY = 400,
          ascendingDuration = 500, ascendingXOffset = - 200, ascendingYTarget = - 240,
          hoveringDuration = 200, hoveringAmplitude = 2,
          descendingDuration = 2000, descendingSpeedX = - 3 / 100, descendingSpeedY = 3 / 20,
          descendingRandomFactor = - 1, rotationVelocity = 40, scale = 9 / 10,
          color = None, imageSource = Some ''./assets/confetti1.png''\<rparr>"
  by (simp add: config_inverted_def defaultConfig_def getAnimationPropsForConfetti_def
      randomInRange_def sample_def lodash_low_def)



section \<open>The resolved configuration\<close>

text \<open>Whatever the caller passes, the fields of the resolved configuration that the
  component reads are those of \<open>defaultConfig\<close>.\<close>

lemma resolvedConfig_is_default:
  "ConfettiSkiaConfig.truncate (resolvedConfig c) = defaultConfig"
  by (simp add: resolvedConfig_def ConfettiSkiaConfig.truncate_def defaultConfig_def)


text \<open>
  C1. The resolved configuration should take each field that the caller supplied from
  the caller. The code does not: for a caller that supplies a count of 10, the resolved
  count is the default 50, where the merge of the specification gives 10; the caller's
  object is stored whole under the key \<open>config\<close>.
\<close>

theorem resolvedConfig_ignores_caller:
  "count_opt count_10 = Some 10 \<and>
   count (resolvedConfig (Some count_10)) = 50 \<and>
   count (resolvedConfig_spec (Some count_10)) = 10 \<and>
   config (resolvedConfig (Some count_10)) = Some count_10"
  by (simp add: resolvedConfig_def resolvedConfig_spec_def count_10_def no_overrides_def
      defaultConfig_def)

end
